theory Spec2Isabelle
  imports Main "HOL-Library.AList"
begin

section \<open>PortProvider: the channel broker of the host frame\<close>

text \<open>
  A shallow embedding of \<^verbatim>\<open>src/shared/port-provider.js\<close>. The class \<^verbatim>\<open>PortProvider\<close>
  listens for \<^verbatim>\<open>message\<close> events, checks each one against the table
  \<^verbatim>\<open>_allowedMessages\<close>, remembers in \<^verbatim>\<open>_sentChannels\<close> which channel was already
  answered for which source, and sends the two ports of a \<^verbatim>\<open>MessageChannel\<close> to the
  two frames.

  JavaScript objects with identity (windows, message channels) are numbered; the mutable
  fields of the class are a record that every operation returns updated; the calls that
  leave the class (\<^verbatim>\<open>postMessage\<close>, \<^verbatim>\<open>emit\<close>) are recorded as a list of effects, and
  whether such a call throws is decided by a parameter of the handler.
\<close>

subsection \<open>Platform objects\<close>

text \<open>
  \<^verbatim>\<open>new MessageChannel()\<close> creates two entangled ports. The n-th channel created has
  the ports \<open>Port1 n\<close> and \<open>Port2 n\<close>.
\<close>

datatype port = Port1 nat | Port2 nat

record message_channel =
  port1 :: port
  port2 :: port

definition newMessageChannel :: "nat \<Rightarrow> message_channel" where
  "newMessageChannel n = \<lparr>port1 = Port1 n, port2 = Port2 n\<rparr>"

text \<open>
  \<^verbatim>\<open>MessageEvent.source\<close> is a \<^verbatim>\<open>Window\<close>, a \<^verbatim>\<open>MessagePort\<close>, a \<^verbatim>\<open>ServiceWorker\<close> or
  \<^verbatim>\<open>null\<close>. Windows and service workers are identified by a number.
\<close>

datatype event_source =
    SourceNull
  | SourceWindow nat
  | SourceMessagePort port
  | SourceServiceWorker nat

text \<open>The \<^verbatim>\<open>data\<close> of an event is any structured-clonable JavaScript value.\<close>

datatype jsval =
    JUndefined
  | JNull
  | JBool bool
  | JNum int
  | JStr string
  | JObj "(string \<times> jsval) list"

text \<open>Reading a property: \<^verbatim>\<open>undefined\<close> when the value has no such property.\<close>

definition getProp :: "jsval \<Rightarrow> string \<Rightarrow> jsval" where
  "getProp d k =
     (case d of
        JObj kvs \<Rightarrow> (case map_of kvs k of Some v \<Rightarrow> v | None \<Rightarrow> JUndefined)
      | _ \<Rightarrow> JUndefined)"

record message_event =
  data :: jsval
  origin :: string
  source :: event_source

subsection \<open>Messages and the table of allowed messages\<close>

text \<open>
  The type \<^verbatim>\<open>Message\<close> of \<^verbatim>\<open>port-util\<close>: \<^verbatim>\<open>{frame1, frame2, type}\<close>. The spec calls
  \<^verbatim>\<open>frame1\<close> the requester kind and \<^verbatim>\<open>frame2\<close> the responder kind.
\<close>

record message =
  frame1 :: string
  frame2 :: string
  type :: string

text \<open>An entry of \<^verbatim>\<open>_allowedMessages\<close>: \<^verbatim>\<open>Message & {allowedOrigin: string}\<close>.\<close>

record allowed_message = message +
  allowedOrigin :: string

text \<open>
  The table built by the constructor (lines 89-114), in the order of the source. It
  depends only on the constructor's argument and is never assigned again.
\<close>

definition allowedMessages :: "string \<Rightarrow> allowed_message list" where
  "allowedMessages hypothesisAppsOrigin =
     [ \<lparr>frame1 = ''guest'', frame2 = ''host'', type = ''request'', allowedOrigin = ''*''\<rparr>,
       \<lparr>frame1 = ''guest'', frame2 = ''sidebar'', type = ''request'', allowedOrigin = ''*''\<rparr>,
       \<lparr>frame1 = ''sidebar'', frame2 = ''host'', type = ''request'',
        allowedOrigin = hypothesisAppsOrigin\<rparr>,
       \<lparr>frame1 = ''notebook'', frame2 = ''sidebar'', type = ''request'',
        allowedOrigin = hypothesisAppsOrigin\<rparr> ]"

text \<open>The values of the type \<^verbatim>\<open>Channel\<close> (line 11).\<close>

definition Channel :: "string list" where
  "Channel = [''guest-host'', ''guest-sidebar'', ''notebook-sidebar'', ''sidebar-host'']"

text \<open>
  Modelled from the spec: \<^verbatim>\<open>isMessageEqual\<close> of \<^verbatim>\<open>port-util\<close>, which is imported by the
  source but is not part of it. The spec's matcher contract compares the three fields of
  the decoded message with the entry: the message's type field, its requester kind and
  its responder kind. A value that is not an object has none of the fields.
\<close>

definition isMessageEqual :: "jsval \<Rightarrow> message \<Rightarrow> bool" where
  "isMessageEqual d m \<longleftrightarrow>
     getProp d ''frame1'' = JStr (frame1 m) \<and>
     getProp d ''frame2'' = JStr (frame2 m) \<and>
     getProp d ''type'' = JStr (type m)"

text \<open>
  Modelled from the spec: \<^verbatim>\<open>isSourceWindow\<close> of \<^verbatim>\<open>port-util\<close>, imported but not part
  of the source. The spec's step 1 accepts an event only when its sender is a window-like
  context reference.
\<close>

definition isSourceWindow :: "event_source \<Rightarrow> bool" where
  "isSourceWindow s = (case s of SourceWindow _ \<Rightarrow> True | _ \<Rightarrow> False)"

text \<open>\<^verbatim>\<open>_messageMatches\<close> (lines 129-135).\<close>

definition messageMatches :: "message \<Rightarrow> string \<Rightarrow> jsval \<Rightarrow> string \<Rightarrow> bool" where
  "messageMatches allowedMessage allowedOrigin' d origin' =
     (if allowedOrigin' \<noteq> ''*'' \<and> origin' \<noteq> allowedOrigin' then False
      else isMessageEqual d allowedMessage)"

text \<open>
  The destructuring \<^verbatim>\<open>({ allowedOrigin, ...allowedMessage })\<close> of the callback given to
  \<^verbatim>\<open>find\<close> (lines 158-166): the rest object keeps the three message fields.
\<close>

definition restMessage :: "allowed_message \<Rightarrow> message" where
  "restMessage e = \<lparr>frame1 = frame1 e, frame2 = frame2 e, type = type e\<rparr>"

definition matchesEntry :: "jsval \<Rightarrow> string \<Rightarrow> allowed_message \<Rightarrow> bool" where
  "matchesEntry d origin' e = messageMatches (restMessage e) (allowedOrigin e) d origin'"

subsection \<open>The state of the provider\<close>

text \<open>
  \<^verbatim>\<open>_sentChannels\<close> is created by \<^verbatim>\<open>new Map()\<close> (line 80): a JavaScript \<^verbatim>\<open>Map\<close> keeps its
  keys in insertion order, holds them strongly and can enumerate them. It is an
  association list from the source object to a \<^verbatim>\<open>Set\<close> of channel names, itself a list
  without duplicates in insertion order.
\<close>

definition setHas :: "string list \<Rightarrow> string \<Rightarrow> bool" where
  "setHas S c \<longleftrightarrow> c \<in> set S"

definition setAdd :: "string list \<Rightarrow> string \<Rightarrow> string list" where
  "setAdd S c = (if c \<in> set S then S else S @ [c])"

definition mapGet :: "(event_source \<times> string list) list \<Rightarrow> event_source \<Rightarrow> string list option" where
  "mapGet m k = map_of m k"

definition mapSet ::
  "(event_source \<times> string list) list \<Rightarrow> event_source \<Rightarrow> string list \<Rightarrow>
   (event_source \<times> string list) list" where
  "mapSet m k v = AList.update k v m"

definition mapKeys :: "(event_source \<times> string list) list \<Rightarrow> event_source list" where
  "mapKeys m = map fst m"

text \<open>
  The fields of the class that the handler reads or writes. \<open>channelsCreated\<close> is the
  number of \<^verbatim>\<open>MessageChannel\<close> objects created so far, which names the next one.
\<close>

record port_provider =
  hypothesisAppsOrigin :: string
  sentChannels :: "(event_source \<times> string list) list"
  sidebarHostChannel :: message_channel
  channelsCreated :: nat

text \<open>
  The constructor (lines 67-115): the \<^verbatim>\<open>sidebar-host\<close> channel is created here, as the
  first channel.
\<close>

definition PortProvider :: "string \<Rightarrow> port_provider" where
  "PortProvider appsOrigin =
     \<lparr>hypothesisAppsOrigin = appsOrigin,
      sentChannels = [],
      sidebarHostChannel = newMessageChannel 0,
      channelsCreated = 1\<rparr>"

subsection \<open>Effects\<close>

text \<open>
  The three calls by which the handler acts on the outside:
  \<^verbatim>\<open>source.postMessage(message, origin, [port])\<close>,
  \<^verbatim>\<open>port.postMessage(message, [port])\<close> and
  \<^verbatim>\<open>this._emitter.emit(eventName, frame1, port)\<close>.
\<close>

datatype effect =
    WindowPostMessage event_source message string "port list"
  | PortPostMessage port message "port list"
  | Emit string string port

text \<open>
  What one run of the handler leaves behind: the provider, the calls that completed (in
  order), the call that threw, if one did (nothing after it runs), and the channel name
  and the value of \<^verbatim>\<open>messageChannel\<close> when the run reached lines 189-192.
\<close>

record result =
  state :: port_provider
  effects :: "effect list"
  thrown :: "effect option"
  granted :: "(string \<times> message_channel) option"

definition attempted :: "result \<Rightarrow> effect list" where
  "attempted r = effects r @ (case thrown r of None \<Rightarrow> [] | Some e \<Rightarrow> [e])"

subsection \<open>The request handler\<close>

text \<open>
  \<^verbatim>\<open>handleRequest\<close> (lines 151-204). \<open>matchOf\<close> is the constant \<^verbatim>\<open>match\<close> of lines
  158-166, \<open>channelName\<close> the template string of line 173 and \<open>offerMessage\<close> the
  object literal of line 194. \<open>throws\<close> says which of the outside calls throw during
  this run; it stands for the platform and for the handlers subscribed to
  \<^verbatim>\<open>frameConnected\<close>.
\<close>

definition offerMessage :: "'a message_scheme \<Rightarrow> message" where
  "offerMessage m = \<lparr>frame1 = frame1 m, frame2 = frame2 m, type = ''offer''\<rparr>"

definition matchOf :: "port_provider \<Rightarrow> message_event \<Rightarrow> allowed_message option" where
  "matchOf s event =
     List.find (matchesEntry (data event) (origin event))
       (allowedMessages (hypothesisAppsOrigin s))"

definition channelName :: "'a message_scheme \<Rightarrow> string" where
  "channelName m = frame1 m @ ''-'' @ frame2 m"

definition handleRequest :: "(effect \<Rightarrow> bool) \<Rightarrow> port_provider \<Rightarrow> message_event \<Rightarrow> result" where
  "handleRequest throws s event =
     (if \<not> isSourceWindow (source event) then
        \<lparr>state = s, effects = [], thrown = None, granted = None\<rparr>
      else
        case matchOf s event of
          None \<Rightarrow> \<lparr>state = s, effects = [], thrown = None, granted = None\<rparr>
        | Some match \<Rightarrow>
            let channel = channelName match;
                found = mapGet (sentChannels s) (source event);
                sent = (case found of None \<Rightarrow> [] | Some S \<Rightarrow> S);
                m1 = (case found of
                        None \<Rightarrow> mapSet (sentChannels s) (source event) []
                      | Some S \<Rightarrow> sentChannels s)
            in
              if setHas sent channel then
                \<lparr>state = s\<lparr>sentChannels := m1\<rparr>, effects = [], thrown = None, granted = None\<rparr>
              else
                let m2 = mapSet m1 (source event) (setAdd sent channel);
                    messageChannel =
                      (if channel = ''sidebar-host'' then sidebarHostChannel s
                       else newMessageChannel (channelsCreated s));
                    s' = s\<lparr>sentChannels := m2,
                           channelsCreated :=
                             (if channel = ''sidebar-host'' then channelsCreated s
                              else Suc (channelsCreated s))\<rparr>;
                    msg = offerMessage match;
                    g = Some (channel, messageChannel);
                    e1 = WindowPostMessage (source event) msg (origin event)
                           [port1 messageChannel]
                in
                  if throws e1 then
                    \<lparr>state = s', effects = [], thrown = Some e1, granted = g\<rparr>
                  else if frame2 match = ''sidebar'' then
                    let e2 = PortPostMessage (port2 (sidebarHostChannel s)) msg
                               [port2 messageChannel]
                    in if throws e2 then
                         \<lparr>state = s', effects = [e1], thrown = Some e2, granted = g\<rparr>
                       else
                         \<lparr>state = s', effects = [e1, e2], thrown = None, granted = g\<rparr>
                  else if frame2 match = ''host'' then
                    let e3 = Emit ''frameConnected'' (frame1 match) (port2 messageChannel)
                    in if throws e3 then
                         \<lparr>state = s', effects = [e1], thrown = Some e3, granted = g\<rparr>
                       else
                         \<lparr>state = s', effects = [e1, e3], thrown = None, granted = g\<rparr>
                  else
                    \<lparr>state = s', effects = [e1], thrown = None, granted = g\<rparr>)"

text \<open>
  Whether \<^verbatim>\<open>_sentChannels\<close> already holds the channel for the source: the test of lines
  177-184 (the spec's \<^verbatim>\<open>hasGranted\<close>).
\<close>

definition hasGranted :: "port_provider \<Rightarrow> event_source \<Rightarrow> string \<Rightarrow> bool" where
  "hasGranted s src channel =
     (case mapGet (sentChannels s) src of None \<Rightarrow> False | Some S \<Rightarrow> setHas S channel)"

subsection \<open>Listening\<close>

text \<open>
  Modelled from the spec: \<^verbatim>\<open>captureErrors\<close> of \<^verbatim>\<open>frame-error-capture\<close>, imported but not
  part of the source. The spec's failure semantics: an exception of the wrapped handler
  is caught, reported to the error sink together with a short description of the
  operation that failed, and does not propagate. The report names the call that threw.
\<close>

record listener_result =
  after :: port_provider
  performed :: "effect list"
  reported :: "(effect \<times> string) list"
  propagated :: "effect option"

definition captureErrors ::
  "(port_provider \<Rightarrow> message_event \<Rightarrow> result) \<Rightarrow> string \<Rightarrow>
   port_provider \<Rightarrow> message_event \<Rightarrow> listener_result" where
  "captureErrors callback context s event =
     (let r = callback s event
      in \<lparr>after = state r,
          performed = effects r,
          reported = (case thrown r of None \<Rightarrow> [] | Some e \<Rightarrow> [(e, context)]),
          propagated = None\<rparr>)"

text \<open>The listener that \<^verbatim>\<open>listen\<close> registers for \<^verbatim>\<open>message\<close> events (lines 206-210).\<close>

definition listener :: "(effect \<Rightarrow> bool) \<Rightarrow> port_provider \<Rightarrow> message_event \<Rightarrow> listener_result" where
  "listener throws = captureErrors (handleRequest throws) ''Handling port request''"

text \<open>
  The event loop delivers the events one at a time, each to completion, and goes on to
  the next event whether the handler returned or threw: the provider that the next event
  finds is the one the handler left. \<open>dispatch\<close> gives the run of the handler for
  each event, \<open>run\<close> the provider after all of them.
\<close>

fun dispatch :: "port_provider \<Rightarrow> ((effect \<Rightarrow> bool) \<times> message_event) list \<Rightarrow> result list" where
  "dispatch s [] = []"
| "dispatch s (te # evs) =
     handleRequest (fst te) s (snd te) # dispatch (state (handleRequest (fst te) s (snd te))) evs"

fun run :: "port_provider \<Rightarrow> ((effect \<Rightarrow> bool) \<times> message_event) list \<Rightarrow> port_provider" where
  "run s [] = s"
| "run s (te # evs) = run (state (handleRequest (fst te) s (snd te))) evs"

subsection \<open>Example inputs\<close>

text \<open>
  The request that the companion class sends for a pair of frames, an event carrying it
  from a window, a platform on which no call throws, and one on which posting to a
  window throws.
\<close>

definition requestData :: "string \<Rightarrow> string \<Rightarrow> jsval" where
  "requestData a b =
     JObj [(''frame1'', JStr a), (''frame2'', JStr b), (''type'', JStr ''request'')]"

definition requestEvent :: "string \<Rightarrow> string \<Rightarrow> string \<Rightarrow> nat \<Rightarrow> message_event" where
  "requestEvent a b from w = \<lparr>data = requestData a b, origin = from, source = SourceWindow w\<rparr>"

definition neverThrows :: "effect \<Rightarrow> bool" where
  "neverThrows e = False"

definition windowThrows :: "effect \<Rightarrow> bool" where
  "windowThrows e = (case e of WindowPostMessage _ _ _ _ \<Rightarrow> True | _ \<Rightarrow> False)"

section \<open>Properties of the handler\<close>

subsection \<open>The four ways through the handler\<close>

lemmas model_defs =
  isSourceWindow_def allowedMessages_def matchesEntry_def messageMatches_def restMessage_def
  isMessageEqual_def getProp_def mapGet_def mapSet_def mapKeys_def setHas_def setAdd_def
  newMessageChannel_def matchOf_def channelName_def offerMessage_def hasGranted_def
  PortProvider_def requestData_def requestEvent_def neverThrows_def windowThrows_def

lemmas eval_defs = handleRequest_def attempted_def Let_def

lemma matchesEntry_iff:
  "matchesEntry d orig e \<longleftrightarrow>
     (allowedOrigin e = ''*'' \<or> orig = allowedOrigin e) \<and>
     getProp d ''frame1'' = JStr (frame1 e) \<and>
     getProp d ''frame2'' = JStr (frame2 e) \<and>
     getProp d ''type'' = JStr (type e)"
  by (auto simp: matchesEntry_def messageMatches_def restMessage_def isMessageEqual_def)

lemma allowedMessages_type:
  "e \<in> set (allowedMessages appsOrigin) \<Longrightarrow> type e = ''request''"
  by (auto simp: allowedMessages_def)

lemma handleRequest_ignored_source:
  "\<not> isSourceWindow (source ev) \<Longrightarrow>
   handleRequest t s ev = \<lparr>state = s, effects = [], thrown = None, granted = None\<rparr>"
  by (simp add: handleRequest_def)

lemma handleRequest_no_match:
  "matchOf s ev = None \<Longrightarrow>
   handleRequest t s ev = \<lparr>state = s, effects = [], thrown = None, granted = None\<rparr>"
  by (simp add: handleRequest_def)

lemma handleRequest_duplicate:
  assumes "matchOf s ev = Some m" and "hasGranted s (source ev) (channelName m)"
  shows "handleRequest t s ev = \<lparr>state = s, effects = [], thrown = None, granted = None\<rparr>"
proof (cases "mapGet (sentChannels s) (source ev)")
  case None
  with assms show ?thesis by (simp add: hasGranted_def)
next
  case (Some S)
  with assms show ?thesis by (simp add: handleRequest_def hasGranted_def Let_def)
qed

text \<open>The registry after the channel has been added for the source (lines 177-185).\<close>

lemma sent_lookup:
  "map_of (mapSet (case mapGet M src of None \<Rightarrow> mapSet M src [] | Some S \<Rightarrow> M) src
             (setAdd (case mapGet M src of None \<Rightarrow> [] | Some S \<Rightarrow> S) c)) src' =
   (if src' = src then Some (setAdd (case map_of M src of None \<Rightarrow> [] | Some S \<Rightarrow> S) c)
    else map_of M src')"
  by (simp add: mapSet_def mapGet_def update_conv' split: option.splits)

lemma handleRequest_grant_state:
  assumes "isSourceWindow (source ev)" and "matchOf s ev = Some m"
    and "\<not> hasGranted s (source ev) (channelName m)"
  shows "state (handleRequest t s ev) =
     s\<lparr>sentChannels :=
          mapSet (case mapGet (sentChannels s) (source ev) of
                    None \<Rightarrow> mapSet (sentChannels s) (source ev) []
                  | Some S \<Rightarrow> sentChannels s) (source ev)
            (setAdd (case mapGet (sentChannels s) (source ev) of None \<Rightarrow> [] | Some S \<Rightarrow> S)
               (channelName m)),
        channelsCreated :=
          (if channelName m = ''sidebar-host'' then channelsCreated s
           else Suc (channelsCreated s))\<rparr>"
proof -
  from assms(3)
  have "\<not> setHas (case mapGet (sentChannels s) (source ev) of None \<Rightarrow> [] | Some S \<Rightarrow> S)
            (channelName m)"
    by (simp add: hasGranted_def setHas_def split: option.splits)
  with assms(1,2) show ?thesis
    by (simp add: handleRequest_def Let_def)
qed

lemma handleRequest_grant_granted:
  assumes "isSourceWindow (source ev)" and "matchOf s ev = Some m"
    and "\<not> hasGranted s (source ev) (channelName m)"
  shows "granted (handleRequest t s ev) =
     Some (channelName m,
           if channelName m = ''sidebar-host'' then sidebarHostChannel s
           else newMessageChannel (channelsCreated s))"
proof -
  from assms(3)
  have "\<not> setHas (case mapGet (sentChannels s) (source ev) of None \<Rightarrow> [] | Some S \<Rightarrow> S)
            (channelName m)"
    by (simp add: hasGranted_def setHas_def split: option.splits)
  with assms(1,2) show ?thesis
    by (simp add: handleRequest_def Let_def)
qed

lemma handleRequest_grant_attempted:
  assumes "isSourceWindow (source ev)" and "matchOf s ev = Some m"
    and "\<not> hasGranted s (source ev) (channelName m)"
    and "mc = (if channelName m = ''sidebar-host'' then sidebarHostChannel s
               else newMessageChannel (channelsCreated s))"
    and "e1 = WindowPostMessage (source ev) (offerMessage m) (origin ev) [port1 mc]"
    and "e2 = PortPostMessage (port2 (sidebarHostChannel s)) (offerMessage m) [port2 mc]"
    and "e3 = Emit ''frameConnected'' (frame1 m) (port2 mc)"
  shows "attempted (handleRequest t s ev) =
           (if t e1 then [e1]
            else if frame2 m = ''sidebar'' then [e1, e2]
            else if frame2 m = ''host'' then [e1, e3]
            else [e1])"
    and "thrown (handleRequest t s ev) =
           (if t e1 then Some e1
            else if frame2 m = ''sidebar'' then (if t e2 then Some e2 else None)
            else if frame2 m = ''host'' then (if t e3 then Some e3 else None)
            else None)"
proof -
  from assms(3)
  have *: "\<not> setHas (case mapGet (sentChannels s) (source ev) of None \<Rightarrow> [] | Some S \<Rightarrow> S)
            (channelName m)"
    by (simp add: hasGranted_def setHas_def split: option.splits)
  from * assms(1,2,4-7) show "attempted (handleRequest t s ev) =
           (if t e1 then [e1]
            else if frame2 m = ''sidebar'' then [e1, e2]
            else if frame2 m = ''host'' then [e1, e3]
            else [e1])"
    by (simp add: handleRequest_def attempted_def Let_def)
  from * assms(1,2,4-7) show "thrown (handleRequest t s ev) =
           (if t e1 then Some e1
            else if frame2 m = ''sidebar'' then (if t e2 then Some e2 else None)
            else if frame2 m = ''host'' then (if t e3 then Some e3 else None)
            else None)"
    by (simp add: handleRequest_def Let_def)
qed

lemma handleRequest_cases:
  obtains (ignored) "handleRequest t s ev = \<lparr>state = s, effects = [], thrown = None, granted = None\<rparr>"
      and "\<not> isSourceWindow (source ev) \<or> matchOf s ev = None \<or>
           (\<exists>m. matchOf s ev = Some m \<and> hasGranted s (source ev) (channelName m))"
  | (grant) m where "isSourceWindow (source ev)" and "matchOf s ev = Some m"
      and "\<not> hasGranted s (source ev) (channelName m)"
proof (cases "isSourceWindow (source ev)")
  case False
  then show ?thesis using ignored handleRequest_ignored_source by blast
next
  case win: True
  show ?thesis
  proof (cases "matchOf s ev")
    case None
    then show ?thesis using ignored handleRequest_no_match by blast
  next
    case (Some m)
    show ?thesis
    proof (cases "hasGranted s (source ev) (channelName m)")
      case True
      with Some show ?thesis using ignored handleRequest_duplicate by blast
    next
      case False
      with win Some show ?thesis using grant by blast
    qed
  qed
qed

lemma granted_iff:
  "granted (handleRequest t s ev) = Some (k, mc) \<longleftrightarrow>
     isSourceWindow (source ev) \<and>
     (\<exists>m. matchOf s ev = Some m \<and> k = channelName m) \<and>
     \<not> hasGranted s (source ev) k \<and>
     mc = (if k = ''sidebar-host'' then sidebarHostChannel s
           else newMessageChannel (channelsCreated s))"
proof (cases t s ev rule: handleRequest_cases)
  case ignored
  then show ?thesis by auto
next
  case (grant m)
  then show ?thesis by (auto simp: handleRequest_grant_granted)
qed

lemma handleRequest_appsOrigin:
  "hypothesisAppsOrigin (state (handleRequest t s ev)) = hypothesisAppsOrigin s"
  by (cases t s ev rule: handleRequest_cases) (simp_all add: handleRequest_grant_state)

lemma handleRequest_sidebarHostChannel:
  "sidebarHostChannel (state (handleRequest t s ev)) = sidebarHostChannel s"
  by (cases t s ev rule: handleRequest_cases) (simp_all add: handleRequest_grant_state)

lemma handleRequest_channelsCreated:
  "channelsCreated (state (handleRequest t s ev)) =
     (case granted (handleRequest t s ev) of
        None \<Rightarrow> channelsCreated s
      | Some g \<Rightarrow> if fst g = ''sidebar-host'' then channelsCreated s
                  else Suc (channelsCreated s))"
  by (cases t s ev rule: handleRequest_cases)
     (simp_all add: handleRequest_grant_state handleRequest_grant_granted)

lemma hasGranted_after:
  "hasGranted (state (handleRequest t s ev)) src c \<longleftrightarrow>
     hasGranted s src c \<or>
     (src = source ev \<and> (\<exists>mc. granted (handleRequest t s ev) = Some (c, mc)))"
proof (cases t s ev rule: handleRequest_cases)
  case ignored
  then show ?thesis by simp
next
  case (grant m)
  have "hasGranted (state (handleRequest t s ev)) src c \<longleftrightarrow>
          hasGranted s src c \<or> (src = source ev \<and> c = channelName m)"
    unfolding handleRequest_grant_state [OF grant] hasGranted_def
    by (simp add: mapGet_def [of "mapSet _ _ _"] sent_lookup)
       (auto simp: mapGet_def setHas_def setAdd_def split: option.splits)
  then show ?thesis
    by (auto simp: handleRequest_grant_granted [OF grant])
qed

lemma matchOf_after:
  "matchOf (state (handleRequest t s ev)) ev' = matchOf s ev'"
  by (simp add: matchOf_def handleRequest_appsOrigin)

subsection \<open>Sequences of events\<close>

lemma run_append:
  "run s (xs @ ys) = run (run s xs) ys"
  by (induction xs arbitrary: s) simp_all

lemma dispatch_append:
  "dispatch s (xs @ ys) = dispatch s xs @ dispatch (run s xs) ys"
  by (induction xs arbitrary: s) simp_all

lemma run_appsOrigin:
  "hypothesisAppsOrigin (run s evs) = hypothesisAppsOrigin s"
  by (induction evs arbitrary: s) (simp_all add: handleRequest_appsOrigin)

lemma run_sidebarHostChannel:
  "sidebarHostChannel (run s evs) = sidebarHostChannel s"
  by (induction evs arbitrary: s) (simp_all add: handleRequest_sidebarHostChannel)

lemma matchOf_run:
  "matchOf (run s evs) ev = matchOf s ev"
  by (simp add: matchOf_def run_appsOrigin)

lemma handleRequest_channelsCreated_mono:
  "channelsCreated s \<le> channelsCreated (state (handleRequest t s ev))"
  by (simp add: handleRequest_channelsCreated split: option.splits)

lemma run_channelsCreated_mono:
  "channelsCreated s \<le> channelsCreated (run s evs)"
proof (induction evs arbitrary: s)
  case Nil
  show ?case by simp
next
  case (Cons te evs)
  have "channelsCreated s \<le> channelsCreated (state (handleRequest (fst te) s (snd te)))"
    by (rule handleRequest_channelsCreated_mono)
  also have "\<dots> \<le> channelsCreated (run (state (handleRequest (fst te) s (snd te))) evs)"
    by (rule Cons.IH)
  finally show ?case by simp
qed

lemma run_hasGranted_mono:
  "hasGranted s src c \<Longrightarrow> hasGranted (run s evs) src c"
  by (induction evs arbitrary: s) (simp_all add: hasGranted_after)

text \<open>
  Every pair handed out during a sequence of events is the \<^verbatim>\<open>sidebar-host\<close> pair or a
  channel created during the sequence.
\<close>

lemma dispatch_granted_bound:
  assumes "r \<in> set (dispatch s evs)" and "granted r = Some (k, mc)"
  shows "(k = ''sidebar-host'' \<and> mc = sidebarHostChannel s) \<or>
         (k \<noteq> ''sidebar-host'' \<and>
          (\<exists>n. channelsCreated s \<le> n \<and> n < channelsCreated (run s evs) \<and>
               mc = newMessageChannel n))"
  using assms
proof (induction evs arbitrary: s)
  case Nil
  then show ?case by simp
next
  case (Cons te evs)
  let ?r = "handleRequest (fst te) s (snd te)"
  from Cons.prems(1) have "r = ?r \<or> r \<in> set (dispatch (state ?r) evs)"
    by simp
  then show ?case
  proof
    assume r: "r = ?r"
    with Cons.prems(2) have g: "granted ?r = Some (k, mc)" by simp
    then have mc: "mc = (if k = ''sidebar-host'' then sidebarHostChannel s
                         else newMessageChannel (channelsCreated s))"
      by (simp add: granted_iff)
    from g have "channelsCreated (state ?r) =
        (if k = ''sidebar-host'' then channelsCreated s else Suc (channelsCreated s))"
      by (simp add: handleRequest_channelsCreated)
    moreover have "channelsCreated (state ?r) \<le> channelsCreated (run (state ?r) evs)"
      by (rule run_channelsCreated_mono)
    ultimately show ?thesis using mc
      by auto
  next
    assume "r \<in> set (dispatch (state ?r) evs)"
    from Cons.IH [OF this Cons.prems(2)]
    have "(k = ''sidebar-host'' \<and> mc = sidebarHostChannel (state ?r)) \<or>
         (k \<noteq> ''sidebar-host'' \<and>
          (\<exists>n. channelsCreated (state ?r) \<le> n \<and> n < channelsCreated (run (state ?r) evs) \<and>
               mc = newMessageChannel n))" .
    moreover have "channelsCreated s \<le> channelsCreated (state ?r)"
      by (rule handleRequest_channelsCreated_mono)
    ultimately show ?thesis
      by (auto simp: handleRequest_sidebarHostChannel intro: order_trans)
  qed
qed

lemma allowedMessages_frame2:
  "e \<in> set (allowedMessages appsOrigin) \<Longrightarrow> frame2 e = ''sidebar'' \<or> frame2 e = ''host''"
  by (auto simp: allowedMessages_def)

lemma matchOf_in_table:
  "matchOf s ev = Some m \<Longrightarrow> m \<in> set (allowedMessages (hypothesisAppsOrigin s))"
  by (auto simp: matchOf_def find_Some_iff)

lemma allowedMessages_cases:
  assumes "e \<in> set (allowedMessages appsOrigin)"
  obtains (guest_host) "frame1 e = ''guest''" and "frame2 e = ''host''"
  | (guest_sidebar) "frame1 e = ''guest''" and "frame2 e = ''sidebar''"
  | (sidebar_host) "frame1 e = ''sidebar''" and "frame2 e = ''host''"
  | (notebook_sidebar) "frame1 e = ''notebook''" and "frame2 e = ''sidebar''"
  using assms by (auto simp: allowedMessages_def)

lemma channelName_sidebar_host:
  assumes "e \<in> set (allowedMessages appsOrigin)" and "channelName e = ''sidebar-host''"
  shows "frame1 e = ''sidebar'' \<and> frame2 e = ''host''"
  using assms(1)
proof (cases rule: allowedMessages_cases)
  case sidebar_host
  then show ?thesis by simp
qed (use assms(2) in \<open>simp_all add: channelName_def\<close>)

lemma channelName_to_sidebar:
  assumes "e \<in> set (allowedMessages appsOrigin)"
    and "channelName e = ''guest-sidebar'' \<or> channelName e = ''notebook-sidebar''"
  shows "frame1 e = (if channelName e = ''guest-sidebar'' then ''guest'' else ''notebook'') \<and>
         frame2 e = ''sidebar''"
  using assms(1)
proof (cases rule: allowedMessages_cases)
  case guest_sidebar
  then show ?thesis by (simp add: channelName_def)
next
  case notebook_sidebar
  then show ?thesis by (simp add: channelName_def)
qed (use assms(2) in \<open>simp_all add: channelName_def\<close>)

lemma listener_after:
  "after (listener t s ev) = state (handleRequest t s ev)"
  by (simp add: listener_def captureErrors_def Let_def)

lemma thrown_granted:
  assumes "thrown (handleRequest t s ev) = Some e"
  shows "granted (handleRequest t s ev) \<noteq> None \<and> t e \<and> e \<in> set (attempted (handleRequest t s ev))"
proof (cases t s ev rule: handleRequest_cases)
  case ignored
  with assms show ?thesis by simp
next
  case (grant m)
  note att = handleRequest_grant_attempted [OF grant refl refl refl refl, of t]
  from assms have "t e"
    by (simp add: att(2) split: if_splits)
  moreover have "e \<in> set (attempted (handleRequest t s ev))"
    using assms by (simp add: attempted_def)
  moreover have "granted (handleRequest t s ev) \<noteq> None"
    by (simp add: handleRequest_grant_granted [OF grant])
  ultimately show ?thesis by simp
qed

lemma dispatch_mem_middle:
  "handleRequest t (run s pre) ev \<in> set (dispatch s (pre @ (t, ev) # mid))"
  by (simp add: dispatch_append)

lemma run_middle:
  "run s (pre @ (t, ev) # mid) = run (state (handleRequest t (run s pre) ev)) mid"
  by (simp add: run_append)

subsection \<open>Requests to a new provider\<close>

lemma initial_not_granted:
  "\<not> hasGranted (PortProvider appsOrigin) src c"
  by (simp add: hasGranted_def mapGet_def PortProvider_def)

lemma requestEvent_window:
  "isSourceWindow (source (requestEvent a b from w))"
  by (simp add: requestEvent_def isSourceWindow_def)

lemma isMessageEqual_requestData:
  "isMessageEqual (requestData a b) m \<longleftrightarrow> frame1 m = a \<and> frame2 m = b \<and> type m = ''request''"
  by (auto simp: isMessageEqual_def requestData_def getProp_def)

lemma matchesEntry_requestData:
  "matchesEntry (requestData a b) from e \<longleftrightarrow>
     (allowedOrigin e = ''*'' \<or> from = allowedOrigin e) \<and>
     frame1 e = a \<and> frame2 e = b \<and> type e = ''request''"
  by (auto simp: matchesEntry_def messageMatches_def isMessageEqual_requestData restMessage_def)

lemma matchOf_requestEvent:
  "matchOf s (requestEvent a b from w) =
     List.find (\<lambda>e. (allowedOrigin e = ''*'' \<or> from = allowedOrigin e) \<and>
                    frame1 e = a \<and> frame2 e = b \<and> type e = ''request'')
       (allowedMessages (hypothesisAppsOrigin s))"
  by (simp add: matchOf_def requestEvent_def matchesEntry_requestData [abs_def])

lemma initial_grants:
  "granted (handleRequest t (PortProvider appsOrigin)
      (requestEvent ''guest'' ''host'' appsOrigin w)) = Some (''guest-host'', newMessageChannel 1)"
  "granted (handleRequest t (PortProvider appsOrigin)
      (requestEvent ''guest'' ''sidebar'' appsOrigin w)) =
     Some (''guest-sidebar'', newMessageChannel 1)"
  "granted (handleRequest t (PortProvider appsOrigin)
      (requestEvent ''sidebar'' ''host'' appsOrigin w)) =
     Some (''sidebar-host'', newMessageChannel 0)"
  "granted (handleRequest t (PortProvider appsOrigin)
      (requestEvent ''notebook'' ''sidebar'' appsOrigin w)) =
     Some (''notebook-sidebar'', newMessageChannel 1)"
proof -
  let ?s = "PortProvider appsOrigin"
  have o: "hypothesisAppsOrigin ?s = appsOrigin" and h: "sidebarHostChannel ?s = newMessageChannel 0"
    and n: "channelsCreated ?s = 1"
    by (simp_all add: PortProvider_def)
  have m0: "matchOf ?s (requestEvent ''guest'' ''host'' appsOrigin w) =
              Some (allowedMessages appsOrigin ! 0)"
    by (simp add: matchOf_requestEvent o allowedMessages_def)
  have m1: "matchOf ?s (requestEvent ''guest'' ''sidebar'' appsOrigin w) =
              Some (allowedMessages appsOrigin ! 1)"
    by (simp add: matchOf_requestEvent o allowedMessages_def)
  have m2: "matchOf ?s (requestEvent ''sidebar'' ''host'' appsOrigin w) =
              Some (allowedMessages appsOrigin ! 2)"
    by (simp add: matchOf_requestEvent o allowedMessages_def)
  have m3: "matchOf ?s (requestEvent ''notebook'' ''sidebar'' appsOrigin w) =
              Some (allowedMessages appsOrigin ! 3)"
    by (simp add: matchOf_requestEvent o allowedMessages_def)
  show "granted (handleRequest t ?s (requestEvent ''guest'' ''host'' appsOrigin w)) =
          Some (''guest-host'', newMessageChannel 1)"
    by (simp add: handleRequest_grant_granted [OF requestEvent_window m0 initial_not_granted]
          allowedMessages_def channelName_def n)
  show "granted (handleRequest t ?s (requestEvent ''guest'' ''sidebar'' appsOrigin w)) =
          Some (''guest-sidebar'', newMessageChannel 1)"
    by (simp add: handleRequest_grant_granted [OF requestEvent_window m1 initial_not_granted]
          allowedMessages_def channelName_def n)
  show "granted (handleRequest t ?s (requestEvent ''sidebar'' ''host'' appsOrigin w)) =
          Some (''sidebar-host'', newMessageChannel 0)"
    by (simp add: handleRequest_grant_granted [OF requestEvent_window m2 initial_not_granted]
          allowedMessages_def channelName_def h)
  show "granted (handleRequest t ?s (requestEvent ''notebook'' ''sidebar'' appsOrigin w)) =
          Some (''notebook-sidebar'', newMessageChannel 1)"
    by (simp add: handleRequest_grant_granted [OF requestEvent_window m3 initial_not_granted]
          allowedMessages_def channelName_def n)
qed

lemma channelName_in_table:
  assumes "e \<in> set (allowedMessages appsOrigin)"
  shows "channelName e \<in> set Channel"
  using assms
  by (cases rule: allowedMessages_cases) (simp_all add: channelName_def Channel_def)

lemma granted_channel:
  assumes "granted (handleRequest t s ev) = Some (k, mc)"
  shows "k \<in> set Channel"
proof -
  from assms obtain m where "matchOf s ev = Some m" and "k = channelName m"
    by (auto simp: granted_iff)
  then show ?thesis
    by (auto dest: matchOf_in_table channelName_in_table)
qed

lemma run_hasGranted_channel:
  assumes "\<And>src c. hasGranted s src c \<Longrightarrow> c \<in> set Channel"
    and "hasGranted (run s evs) src c"
  shows "c \<in> set Channel"
  using assms
proof (induction evs arbitrary: s)
  case Nil
  then show ?case by simp
next
  case (Cons te evs)
  let ?r = "handleRequest (fst te) s (snd te)"
  have "c' \<in> set Channel" if "hasGranted (state ?r) src' c'" for src' c'
    using that Cons.prems(1) by (auto simp: hasGranted_after dest: granted_channel)
  moreover from Cons.prems(2) have "hasGranted (run (state ?r) evs) src c"
    by simp
  ultimately show ?case by (rule Cons.IH)
qed

subsection \<open>The keys of the registry\<close>

lemma mapKeys_mapSet:
  "mapKeys (mapSet m k v) = (if k \<in> set (mapKeys m) then mapKeys m else mapKeys m @ [k])"
  by (simp add: mapKeys_def mapSet_def update_keys)

lemma mapGet_None_iff:
  "mapGet m k = None \<longleftrightarrow> k \<notin> set (mapKeys m)"
  by (simp add: mapGet_def mapKeys_def map_of_eq_None_iff)

lemma handleRequest_grant_keys:
  assumes "isSourceWindow (source ev)" and "matchOf s ev = Some m"
    and "\<not> hasGranted s (source ev) (channelName m)"
  shows "mapKeys (sentChannels (state (handleRequest t s ev))) =
     (if source ev \<in> set (mapKeys (sentChannels s)) then mapKeys (sentChannels s)
      else mapKeys (sentChannels s) @ [source ev])"
proof (cases "mapGet (sentChannels s) (source ev)")
  case None
  then have "source ev \<notin> set (mapKeys (sentChannels s))"
    by (simp add: mapGet_None_iff)
  with None show ?thesis
    by (simp add: handleRequest_grant_state [OF assms] mapKeys_mapSet)
next
  case (Some S)
  then have "source ev \<in> set (mapKeys (sentChannels s))"
    using mapGet_None_iff [of "sentChannels s" "source ev"] by simp
  with Some show ?thesis
    by (simp add: handleRequest_grant_state [OF assms] mapKeys_mapSet)
qed

lemma handleRequest_keys_kept:
  "set (mapKeys (sentChannels s)) \<subseteq> set (mapKeys (sentChannels (state (handleRequest t s ev))))"
proof (cases t s ev rule: handleRequest_cases)
  case ignored
  then show ?thesis by simp
next
  case (grant m)
  then show ?thesis by (simp add: handleRequest_grant_keys subset_insertI)
qed

lemma run_keys_kept:
  "set (mapKeys (sentChannels s)) \<subseteq> set (mapKeys (sentChannels (run s evs)))"
proof (induction evs arbitrary: s)
  case Nil
  show ?case by simp
next
  case (Cons te evs)
  have "set (mapKeys (sentChannels s)) \<subseteq>
          set (mapKeys (sentChannels (state (handleRequest (fst te) s (snd te)))))"
    by (rule handleRequest_keys_kept)
  also have "\<dots> \<subseteq> set (mapKeys (sentChannels (run (state (handleRequest (fst te) s (snd te))) evs)))"
    by (rule Cons.IH)
  finally show ?case by simp
qed

lemma matched_source_is_key:
  assumes "isSourceWindow (source ev)" and "matchOf s ev = Some m"
  shows "source ev \<in> set (mapKeys (sentChannels (state (handleRequest t s ev))))"
proof (cases "hasGranted s (source ev) (channelName m)")
  case True
  then have "mapGet (sentChannels s) (source ev) \<noteq> None"
    by (auto simp: hasGranted_def split: option.splits)
  then have "source ev \<in> set (mapKeys (sentChannels s))"
    by (simp add: mapGet_None_iff)
  with True assms(2) show ?thesis by (simp add: handleRequest_duplicate)
next
  case False
  with assms show ?thesis by (simp add: handleRequest_grant_keys)
qed

section \<open>The claims\<close>

subsection \<open>C1: the message matcher\<close>

text \<open>
  C1. For every event (data, origin) and every entry of the table, the matcher is true
  exactly when the data's type field is \<^verbatim>\<open>request\<close>, its \<^verbatim>\<open>frame1\<close> and \<^verbatim>\<open>frame2\<close>
  fields (requester and responder kind) equal the entry's, and the entry's allowed origin
  is \<^verbatim>\<open>*\<close> or equals the event's origin as a string. The entry that the handler uses is
  the first one in table order that matches: the channel it grants and the offer it
  sends are that entry's.
\<close>

theorem matcher_first_match:
  "(\<forall>e \<in> set (allowedMessages appsOrigin).
      matchesEntry d orig e \<longleftrightarrow>
        getProp d ''type'' = JStr ''request'' \<and>
        getProp d ''frame1'' = JStr (frame1 e) \<and>
        getProp d ''frame2'' = JStr (frame2 e) \<and>
        (allowedOrigin e = ''*'' \<or> orig = allowedOrigin e)) \<and>
   (\<forall>i < length (allowedMessages (hypothesisAppsOrigin s)).
      isSourceWindow (source ev) \<and>
      matchesEntry (data ev) (origin ev) (allowedMessages (hypothesisAppsOrigin s) ! i) \<and>
      (\<forall>j < i. \<not> matchesEntry (data ev) (origin ev)
                   (allowedMessages (hypothesisAppsOrigin s) ! j)) \<and>
      \<not> hasGranted s (source ev) (channelName (allowedMessages (hypothesisAppsOrigin s) ! i))
      \<longrightarrow>
      matchOf s ev = Some (allowedMessages (hypothesisAppsOrigin s) ! i) \<and>
      map_option fst (granted (handleRequest t s ev)) =
        Some (channelName (allowedMessages (hypothesisAppsOrigin s) ! i)) \<and>
      (\<exists>ports. hd (attempted (handleRequest t s ev)) =
         WindowPostMessage (source ev)
           (offerMessage (allowedMessages (hypothesisAppsOrigin s) ! i)) (origin ev) ports))"
proof (intro conjI ballI allI impI)
  fix e assume "e \<in> set (allowedMessages appsOrigin)"
  then have "type e = ''request''" by (rule allowedMessages_type)
  then show "matchesEntry d orig e \<longleftrightarrow>
        getProp d ''type'' = JStr ''request'' \<and>
        getProp d ''frame1'' = JStr (frame1 e) \<and>
        getProp d ''frame2'' = JStr (frame2 e) \<and>
        (allowedOrigin e = ''*'' \<or> orig = allowedOrigin e)"
    by (auto simp: matchesEntry_iff)
next
  fix i
  let ?tbl = "allowedMessages (hypothesisAppsOrigin s)"
  assume i: "i < length ?tbl"
    and h: "isSourceWindow (source ev) \<and>
      matchesEntry (data ev) (origin ev) (?tbl ! i) \<and>
      (\<forall>j < i. \<not> matchesEntry (data ev) (origin ev) (?tbl ! j)) \<and>
      \<not> hasGranted s (source ev) (channelName (?tbl ! i))"
  from i h have m: "matchOf s ev = Some (?tbl ! i)"
    unfolding matchOf_def find_Some_iff by blast
  from h have w: "isSourceWindow (source ev)"
    and n: "\<not> hasGranted s (source ev) (channelName (?tbl ! i))" by simp_all
  show "matchOf s ev = Some (?tbl ! i)" by (rule m)
  show "map_option fst (granted (handleRequest t s ev)) = Some (channelName (?tbl ! i))"
    using handleRequest_grant_granted [OF w m n, of t] by simp
  show "\<exists>ports. hd (attempted (handleRequest t s ev)) =
          WindowPostMessage (source ev) (offerMessage (?tbl ! i)) (origin ev) ports"
    using handleRequest_grant_attempted(1) [OF w m n refl refl refl refl, of t] by simp
qed

theorem matcher_first_match_witness:
  "allowedMessages ''https://hypothes.is'' ! 2 \<in> set (allowedMessages ''https://hypothes.is'') \<and>
   matchesEntry (requestData ''sidebar'' ''host'') ''https://hypothes.is''
     (allowedMessages ''https://hypothes.is'' ! 2) \<and>
   \<not> matchesEntry (requestData ''sidebar'' ''host'') ''https://evil.example''
     (allowedMessages ''https://hypothes.is'' ! 2) \<and>
   matchOf (PortProvider ''https://hypothes.is'')
     (requestEvent ''sidebar'' ''host'' ''https://hypothes.is'' 1) =
     Some (allowedMessages ''https://hypothes.is'' ! 2) \<and>
   map_option fst (granted (handleRequest neverThrows (PortProvider ''https://hypothes.is'')
     (requestEvent ''sidebar'' ''host'' ''https://hypothes.is'' 1))) = Some ''sidebar-host''"
proof -
  let ?o = "''https://hypothes.is''"
  let ?s = "PortProvider ?o"
  let ?ev = "requestEvent ''sidebar'' ''host'' ?o 1"
  let ?tbl = "allowedMessages (hypothesisAppsOrigin ?s)"
  note inst = matcher_first_match [of ?o "requestData ''sidebar'' ''host''" _ ?s ?ev neverThrows]
  have a: "allowedMessages ?o ! 2 \<in> set (allowedMessages ?o)"
    by (simp add: allowedMessages_def)
  have b: "2 < length ?tbl" by (simp add: allowedMessages_def)
  have c: "isSourceWindow (source ?ev) \<and>
      matchesEntry (data ?ev) (origin ?ev) (?tbl ! 2) \<and>
      (\<forall>j < 2. \<not> matchesEntry (data ?ev) (origin ?ev) (?tbl ! j)) \<and>
      \<not> hasGranted ?s (source ?ev) (channelName (?tbl ! 2))"
    by (simp add: model_defs less_2_cases_iff)
  from inst [of ?o, THEN conjunct1, rule_format, OF a]
  have d: "matchesEntry (requestData ''sidebar'' ''host'') ?o (allowedMessages ?o ! 2)"
    by (simp add: model_defs)
  from inst [of "''https://evil.example''", THEN conjunct1, rule_format, OF a]
  have e: "\<not> matchesEntry (requestData ''sidebar'' ''host'') ''https://evil.example''
             (allowedMessages ?o ! 2)"
    by (simp add: model_defs)
  from inst [of ?o, THEN conjunct2, rule_format, OF b c]
  have f: "matchOf ?s ?ev = Some (allowedMessages ?o ! 2) \<and>
           map_option fst (granted (handleRequest neverThrows ?s ?ev)) = Some ''sidebar-host''"
    by (simp add: allowedMessages_def channelName_def PortProvider_def)
  from a d e f show ?thesis by simp
qed

subsection \<open>C2: a repeated request\<close>

text \<open>
  C2. For every sender and every valid request (the source is a window and the table has
  a match), handling the same request again, directly after the first time or after any
  further events, does nothing: no message is sent, no notification is emitted, nothing
  throws, no channel is created and the provider is unchanged. The two runs together make
  exactly one grant when the sender had none of that channel before.
\<close>

theorem duplicate_request_ignored:
  assumes "isSourceWindow (source ev)" and "matchOf s ev = Some m"
  shows "handleRequest t' (run (state (handleRequest t s ev)) evs) ev =
           \<lparr>state = run (state (handleRequest t s ev)) evs,
            effects = [], thrown = None, granted = None\<rparr> \<and>
         channelsCreated (state (handleRequest t' (state (handleRequest t s ev)) ev)) =
           channelsCreated (state (handleRequest t s ev)) \<and>
         length (filter (\<lambda>r. granted r \<noteq> None) (dispatch s [(t, ev), (t', ev)])) =
           (if hasGranted s (source ev) (channelName m) then 0 else 1)"
proof -
  let ?r = "handleRequest t s ev"
  have rec: "hasGranted (state ?r) (source ev) (channelName m)"
  proof (cases "hasGranted s (source ev) (channelName m)")
    case True
    then show ?thesis by (simp add: hasGranted_after)
  next
    case False
    with assms show ?thesis
      by (simp add: hasGranted_after handleRequest_grant_granted)
  qed
  have later: "handleRequest u (run (state ?r) xs) ev =
           \<lparr>state = run (state ?r) xs, effects = [], thrown = None, granted = None\<rparr>" for u xs
  proof (rule handleRequest_duplicate)
    show "matchOf (run (state ?r) xs) ev = Some m"
      using assms(2) by (simp add: matchOf_run matchOf_after)
    show "hasGranted (run (state ?r) xs) (source ev) (channelName m)"
      using rec by (rule run_hasGranted_mono)
  qed
  have second: "handleRequest t' (state ?r) ev =
           \<lparr>state = state ?r, effects = [], thrown = None, granted = None\<rparr>"
    using later [of t' "[]"] by simp
  have first: "granted ?r \<noteq> None \<longleftrightarrow> \<not> hasGranted s (source ev) (channelName m)"
  proof (cases "hasGranted s (source ev) (channelName m)")
    case True
    with assms(2) show ?thesis by (simp add: handleRequest_duplicate)
  next
    case False
    with assms show ?thesis by (simp add: handleRequest_grant_granted)
  qed
  show ?thesis
    using later [of t' evs] second first by simp
qed

theorem duplicate_request_ignored_witness:
  "isSourceWindow (source (requestEvent ''guest'' ''sidebar'' ''https://example.com'' 1)) \<and>
   matchOf (PortProvider ''https://hypothes.is'')
     (requestEvent ''guest'' ''sidebar'' ''https://example.com'' 1) =
     Some (allowedMessages ''https://hypothes.is'' ! 1) \<and>
   effects (handleRequest neverThrows
     (state (handleRequest neverThrows (PortProvider ''https://hypothes.is'')
        (requestEvent ''guest'' ''sidebar'' ''https://example.com'' 1)))
     (requestEvent ''guest'' ''sidebar'' ''https://example.com'' 1)) = [] \<and>
   length (filter (\<lambda>r. granted r \<noteq> None)
     (dispatch (PortProvider ''https://hypothes.is'')
        [(neverThrows, requestEvent ''guest'' ''sidebar'' ''https://example.com'' 1),
         (neverThrows, requestEvent ''guest'' ''sidebar'' ''https://example.com'' 1)])) = 1"
proof -
  let ?s = "PortProvider ''https://hypothes.is''"
  let ?ev = "requestEvent ''guest'' ''sidebar'' ''https://example.com'' 1"
  have a: "isSourceWindow (source ?ev)"
    by (simp add: model_defs)
  have b: "matchOf ?s ?ev = Some (allowedMessages ''https://hypothes.is'' ! 1)"
    by (simp add: model_defs)
  have c: "\<not> hasGranted ?s (source ?ev) (channelName (allowedMessages ''https://hypothes.is'' ! 1))"
    by (simp add: model_defs)
  note inst = duplicate_request_ignored [OF a b, of neverThrows neverThrows "[]"]
  from inst [THEN conjunct1]
  have d: "effects (handleRequest neverThrows (state (handleRequest neverThrows ?s ?ev)) ?ev) = []"
    by simp
  from inst [THEN conjunct2, THEN conjunct2] c
  have e: "length (filter (\<lambda>r. granted r \<noteq> None)
             (dispatch ?s [(neverThrows, ?ev), (neverThrows, ?ev)])) = 1"
    by (simp only: if_False)
  from a b d e show ?thesis by (intro conjI)
qed

subsection \<open>C3: the channel created at construction\<close>

text \<open>
  C3. The \<^verbatim>\<open>sidebar-host\<close> pair exists as soon as the provider is constructed, before any
  event, and stays the same pair after any sequence of events. Every grant of
  \<^verbatim>\<open>sidebar-host\<close> hands out that pair and creates nothing. Every grant of another
  channel creates a pair on that call: a channel that did not exist before, different
  from the \<^verbatim>\<open>sidebar-host\<close> pair and from every pair granted earlier.
\<close>

theorem sidebar_host_channel_eager:
  "sidebarHostChannel (PortProvider appsOrigin) = newMessageChannel 0 \<and>
   channelsCreated (PortProvider appsOrigin) = 1 \<and>
   sidebarHostChannel (run (PortProvider appsOrigin) evs) = newMessageChannel 0 \<and>
   (granted (handleRequest t (run (PortProvider appsOrigin) evs) ev) = Some (k, mc) \<longrightarrow>
      (k = ''sidebar-host'' \<longrightarrow>
         mc = newMessageChannel 0 \<and>
         channelsCreated (state (handleRequest t (run (PortProvider appsOrigin) evs) ev)) =
           channelsCreated (run (PortProvider appsOrigin) evs)) \<and>
      (k \<noteq> ''sidebar-host'' \<longrightarrow>
         mc = newMessageChannel (channelsCreated (run (PortProvider appsOrigin) evs)) \<and>
         channelsCreated (state (handleRequest t (run (PortProvider appsOrigin) evs) ev)) =
           Suc (channelsCreated (run (PortProvider appsOrigin) evs)) \<and>
         mc \<noteq> newMessageChannel 0 \<and>
         (\<forall>r \<in> set (dispatch (PortProvider appsOrigin) evs).
            \<forall>k' mc'. granted r = Some (k', mc') \<longrightarrow>
              mc' \<noteq> mc \<and> port1 mc' \<noteq> port1 mc \<and> port2 mc' \<noteq> port2 mc)))"
proof -
  let ?init = "PortProvider appsOrigin"
  let ?s = "run ?init evs"
  let ?r = "handleRequest t ?s ev"
  have a: "sidebarHostChannel ?init = newMessageChannel 0" and b: "channelsCreated ?init = 1"
    by (simp_all add: PortProvider_def)
  have c: "sidebarHostChannel ?s = newMessageChannel 0"
    by (simp add: run_sidebarHostChannel a)
  have pos: "1 \<le> channelsCreated ?s"
    using run_channelsCreated_mono [of ?init evs] by (simp add: b)
  have d: "k = ''sidebar-host'' \<longrightarrow>
         mc = newMessageChannel 0 \<and> channelsCreated (state ?r) = channelsCreated ?s"
    if g: "granted ?r = Some (k, mc)"
  proof
    assume k: "k = ''sidebar-host''"
    from g k c have "mc = newMessageChannel 0"
      by (simp add: granted_iff)
    moreover from g k have "channelsCreated (state ?r) = channelsCreated ?s"
      by (simp add: handleRequest_channelsCreated)
    ultimately show "mc = newMessageChannel 0 \<and> channelsCreated (state ?r) = channelsCreated ?s"
      by simp
  qed
  have e: "k \<noteq> ''sidebar-host'' \<longrightarrow>
         mc = newMessageChannel (channelsCreated ?s) \<and>
         channelsCreated (state ?r) = Suc (channelsCreated ?s) \<and>
         mc \<noteq> newMessageChannel 0 \<and>
         (\<forall>r \<in> set (dispatch ?init evs).
            \<forall>k' mc'. granted r = Some (k', mc') \<longrightarrow>
              mc' \<noteq> mc \<and> port1 mc' \<noteq> port1 mc \<and> port2 mc' \<noteq> port2 mc)"
    if g: "granted ?r = Some (k, mc)"
  proof
    assume k: "k \<noteq> ''sidebar-host''"
    from g k have mc: "mc = newMessageChannel (channelsCreated ?s)"
      by (simp add: granted_iff)
    from g k have n: "channelsCreated (state ?r) = Suc (channelsCreated ?s)"
      by (simp add: handleRequest_channelsCreated)
    have old: "mc' \<noteq> mc \<and> port1 mc' \<noteq> port1 mc \<and> port2 mc' \<noteq> port2 mc"
      if "r \<in> set (dispatch ?init evs)" and "granted r = Some (k', mc')" for r k' mc'
      using dispatch_granted_bound [OF that] mc pos
      by (auto simp: a newMessageChannel_def)
    from mc n pos old
    show "mc = newMessageChannel (channelsCreated ?s) \<and>
         channelsCreated (state ?r) = Suc (channelsCreated ?s) \<and>
         mc \<noteq> newMessageChannel 0 \<and>
         (\<forall>r \<in> set (dispatch ?init evs).
            \<forall>k' mc'. granted r = Some (k', mc') \<longrightarrow>
              mc' \<noteq> mc \<and> port1 mc' \<noteq> port1 mc \<and> port2 mc' \<noteq> port2 mc)"
      by (auto simp: newMessageChannel_def)
  qed
  from a b c d e show ?thesis by blast
qed

theorem sidebar_host_channel_eager_witness:
  "granted (handleRequest neverThrows
      (run (PortProvider ''https://hypothes.is'')
         [(neverThrows, requestEvent ''guest'' ''host'' ''https://example.com'' 1)])
      (requestEvent ''guest'' ''sidebar'' ''https://example.com'' 1)) =
     Some (''guest-sidebar'', newMessageChannel 2) \<and>
   granted (handleRequest neverThrows
      (run (PortProvider ''https://hypothes.is'')
         [(neverThrows, requestEvent ''guest'' ''host'' ''https://example.com'' 1)])
      (requestEvent ''sidebar'' ''host'' ''https://hypothes.is'' 2)) =
     Some (''sidebar-host'', newMessageChannel 0) \<and>
   channelsCreated (state (handleRequest neverThrows
      (run (PortProvider ''https://hypothes.is'')
         [(neverThrows, requestEvent ''guest'' ''host'' ''https://example.com'' 1)])
      (requestEvent ''guest'' ''sidebar'' ''https://example.com'' 1))) = 3 \<and>
   channelsCreated (state (handleRequest neverThrows
      (run (PortProvider ''https://hypothes.is'')
         [(neverThrows, requestEvent ''guest'' ''host'' ''https://example.com'' 1)])
      (requestEvent ''sidebar'' ''host'' ''https://hypothes.is'' 2))) = 2"
proof -
  let ?evs = "[(neverThrows, requestEvent ''guest'' ''host'' ''https://example.com'' 1)]"
  let ?s = "run (PortProvider ''https://hypothes.is'') ?evs"
  let ?ev1 = "requestEvent ''guest'' ''sidebar'' ''https://example.com'' 1"
  let ?ev2 = "requestEvent ''sidebar'' ''host'' ''https://hypothes.is'' 2"
  have n: "channelsCreated ?s = 2"
    by (simp add: eval_defs model_defs)
  have a: "granted (handleRequest neverThrows ?s ?ev1) =
             Some (''guest-sidebar'', newMessageChannel 2)"
    by (simp add: eval_defs model_defs)
  have b: "granted (handleRequest neverThrows ?s ?ev2) =
             Some (''sidebar-host'', newMessageChannel 0)"
    by (simp add: eval_defs model_defs)
  from sidebar_host_channel_eager [of "''https://hypothes.is''" ?evs neverThrows ?ev1
      "''guest-sidebar''" "newMessageChannel 2"] a n
  have c: "channelsCreated (state (handleRequest neverThrows ?s ?ev1)) = 3"
    by simp
  from sidebar_host_channel_eager [of "''https://hypothes.is''" ?evs neverThrows ?ev2
      "''sidebar-host''" "newMessageChannel 0"] b n
  have d: "channelsCreated (state (handleRequest neverThrows ?s ?ev2)) = 2"
    by simp
  from a b c d show ?thesis by simp
qed

subsection \<open>C4: where the two ports go\<close>

text \<open>
  C4. For every granted request, the handler first posts the offer message to the
  requesting source, with the event's origin as target origin and the first port of the
  pair as the only transferred object. Then, when the matched entry's \<^verbatim>\<open>frame2\<close>
  (responder) is \<^verbatim>\<open>sidebar\<close>, it posts the offer with the second port on the second
  port of the \<^verbatim>\<open>sidebar-host\<close> channel; when it is \<^verbatim>\<open>host\<close>, it posts nothing more and
  emits \<^verbatim>\<open>frameConnected\<close> with the entry's \<^verbatim>\<open>frame1\<close> (requester) and the second
  port. A call that throws ends the run; when none throws, all of these calls complete.
\<close>

theorem grant_routing:
  assumes "granted (handleRequest t s ev) = Some (k, mc)" and "matchOf s ev = Some m"
  shows "k = channelName m \<and> (frame2 m = ''sidebar'' \<or> frame2 m = ''host'') \<and>
     attempted (handleRequest t s ev) =
       (if t (WindowPostMessage (source ev) (offerMessage m) (origin ev) [port1 mc])
        then [WindowPostMessage (source ev) (offerMessage m) (origin ev) [port1 mc]]
        else if frame2 m = ''sidebar''
        then [WindowPostMessage (source ev) (offerMessage m) (origin ev) [port1 mc],
              PortPostMessage (port2 (sidebarHostChannel s)) (offerMessage m) [port2 mc]]
        else [WindowPostMessage (source ev) (offerMessage m) (origin ev) [port1 mc],
              Emit ''frameConnected'' (frame1 m) (port2 mc)]) \<and>
     (thrown (handleRequest t s ev) = None \<longrightarrow>
        effects (handleRequest t s ev) = attempted (handleRequest t s ev)) \<and>
     ((\<forall>e. \<not> t e) \<longrightarrow> thrown (handleRequest t s ev) = None) \<and>
     offerMessage m = \<lparr>frame1 = frame1 m, frame2 = frame2 m, type = ''offer''\<rparr>"
proof -
  let ?r = "handleRequest t s ev"
  from assms have k: "k = channelName m"
    and w: "isSourceWindow (source ev)"
    and n: "\<not> hasGranted s (source ev) (channelName m)"
    and mc: "mc = (if channelName m = ''sidebar-host'' then sidebarHostChannel s
                   else newMessageChannel (channelsCreated s))"
    by (auto simp: granted_iff)
  have f: "frame2 m = ''sidebar'' \<or> frame2 m = ''host''"
    using assms(2) by (blast dest: matchOf_in_table allowedMessages_frame2)
  note att = handleRequest_grant_attempted [OF w assms(2) n mc refl refl refl, of t]
  have a: "attempted ?r =
       (if t (WindowPostMessage (source ev) (offerMessage m) (origin ev) [port1 mc])
        then [WindowPostMessage (source ev) (offerMessage m) (origin ev) [port1 mc]]
        else if frame2 m = ''sidebar''
        then [WindowPostMessage (source ev) (offerMessage m) (origin ev) [port1 mc],
              PortPostMessage (port2 (sidebarHostChannel s)) (offerMessage m) [port2 mc]]
        else [WindowPostMessage (source ev) (offerMessage m) (origin ev) [port1 mc],
              Emit ''frameConnected'' (frame1 m) (port2 mc)])"
    using f by (auto simp: att(1))
  have b: "thrown ?r = None \<longrightarrow> effects ?r = attempted ?r"
    by (simp add: attempted_def)
  have c: "(\<forall>e. \<not> t e) \<longrightarrow> thrown ?r = None"
    by (simp add: att(2))
  from k f a b c show ?thesis
    by (simp add: offerMessage_def)
qed

theorem grant_routing_witness:
  "attempted (handleRequest neverThrows (PortProvider ''https://hypothes.is'')
      (requestEvent ''guest'' ''host'' ''https://example.com'' 1)) =
     [WindowPostMessage (SourceWindow 1)
        \<lparr>frame1 = ''guest'', frame2 = ''host'', type = ''offer''\<rparr> ''https://example.com''
        [Port1 1],
      Emit ''frameConnected'' ''guest'' (Port2 1)] \<and>
   attempted (handleRequest neverThrows (PortProvider ''https://hypothes.is'')
      (requestEvent ''notebook'' ''sidebar'' ''https://hypothes.is'' 2)) =
     [WindowPostMessage (SourceWindow 2)
        \<lparr>frame1 = ''notebook'', frame2 = ''sidebar'', type = ''offer''\<rparr> ''https://hypothes.is''
        [Port1 1],
      PortPostMessage (Port2 0)
        \<lparr>frame1 = ''notebook'', frame2 = ''sidebar'', type = ''offer''\<rparr> [Port2 1]]"
proof -
  let ?s = "PortProvider ''https://hypothes.is''"
  let ?ev1 = "requestEvent ''guest'' ''host'' ''https://example.com'' 1"
  let ?ev2 = "requestEvent ''notebook'' ''sidebar'' ''https://hypothes.is'' 2"
  have g1: "granted (handleRequest neverThrows ?s ?ev1) = Some (''guest-host'', newMessageChannel 1)"
    by (simp add: eval_defs model_defs)
  have m1: "matchOf ?s ?ev1 = Some (allowedMessages ''https://hypothes.is'' ! 0)"
    by (simp add: model_defs)
  have g2: "granted (handleRequest neverThrows ?s ?ev2) =
              Some (''notebook-sidebar'', newMessageChannel 1)"
    by (simp add: eval_defs model_defs)
  have m2: "matchOf ?s ?ev2 = Some (allowedMessages ''https://hypothes.is'' ! 3)"
    by (simp add: model_defs)
  from grant_routing [OF g1 m1] grant_routing [OF g2 m2]
  show ?thesis
    by (simp add: model_defs)
qed

subsection \<open>C5: events that fail validation\<close>

text \<open>
  C5. For every event that fails validation (its source is not a window, or every entry
  of the table either differs from the data in shape or requires another origin than the
  event's), the handler does nothing: it attempts no call at all, so it sends no offer
  and emits no notification, it creates no channel, it throws nothing, so that there is
  no error to report, and it leaves the provider as it was.
\<close>

theorem invalid_event_ignored:
  assumes "\<not> isSourceWindow (source ev) \<or>
     (\<forall>e \<in> set (allowedMessages (hypothesisAppsOrigin s)).
        \<not> isMessageEqual (data ev) (restMessage e) \<or>
        (allowedOrigin e \<noteq> ''*'' \<and> origin ev \<noteq> allowedOrigin e))"
  shows "handleRequest t s ev = \<lparr>state = s, effects = [], thrown = None, granted = None\<rparr> \<and>
         attempted (handleRequest t s ev) = [] \<and>
         run s [(t, ev)] = s"
proof -
  have "handleRequest t s ev = \<lparr>state = s, effects = [], thrown = None, granted = None\<rparr>"
  proof (cases "isSourceWindow (source ev)")
    case False
    then show ?thesis by (rule handleRequest_ignored_source)
  next
    case True
    with assms have "\<forall>e \<in> set (allowedMessages (hypothesisAppsOrigin s)).
        \<not> matchesEntry (data ev) (origin ev) e"
      by (auto simp: matchesEntry_def messageMatches_def)
    then have "matchOf s ev = None"
      by (simp add: matchOf_def find_None_iff)
    then show ?thesis by (rule handleRequest_no_match)
  qed
  then show ?thesis
    by (simp add: attempted_def)
qed

theorem invalid_event_ignored_witness:
  "handleRequest neverThrows (PortProvider ''https://hypothes.is'')
     (requestEvent ''notebook'' ''sidebar'' ''https://evil.example'' 3) =
     \<lparr>state = PortProvider ''https://hypothes.is'', effects = [], thrown = None,
      granted = None\<rparr> \<and>
   handleRequest neverThrows (PortProvider ''https://hypothes.is'')
     \<lparr>data = requestData ''guest'' ''host'', origin = ''https://example.com'',
      source = SourceMessagePort (Port1 4)\<rparr> =
     \<lparr>state = PortProvider ''https://hypothes.is'', effects = [], thrown = None,
      granted = None\<rparr> \<and>
   handleRequest neverThrows (PortProvider ''https://hypothes.is'')
     \<lparr>data = JStr ''hello'', origin = ''https://example.com'', source = SourceWindow 5\<rparr> =
     \<lparr>state = PortProvider ''https://hypothes.is'', effects = [], thrown = None,
      granted = None\<rparr>"
proof -
  let ?s = "PortProvider ''https://hypothes.is''"
  let ?ev = "requestEvent ''notebook'' ''sidebar'' ''https://evil.example'' 3"
  let ?ev' = "\<lparr>data = requestData ''guest'' ''host'', origin = ''https://example.com'',
      source = SourceMessagePort (Port1 4)\<rparr>"
  let ?ev'' = "\<lparr>data = JStr ''hello'', origin = ''https://example.com'',
      source = SourceWindow 5\<rparr>"
  have a: "\<not> isSourceWindow (source ?ev) \<or>
     (\<forall>e \<in> set (allowedMessages (hypothesisAppsOrigin ?s)).
        \<not> isMessageEqual (data ?ev) (restMessage e) \<or>
        (allowedOrigin e \<noteq> ''*'' \<and> origin ?ev \<noteq> allowedOrigin e))"
    by (simp add: model_defs)
  have b: "\<not> isSourceWindow (source ?ev') \<or>
     (\<forall>e \<in> set (allowedMessages (hypothesisAppsOrigin ?s)).
        \<not> isMessageEqual (data ?ev') (restMessage e) \<or>
        (allowedOrigin e \<noteq> ''*'' \<and> origin ?ev' \<noteq> allowedOrigin e))"
    by (simp add: model_defs)
  have c: "\<not> isSourceWindow (source ?ev'') \<or>
     (\<forall>e \<in> set (allowedMessages (hypothesisAppsOrigin ?s)).
        \<not> isMessageEqual (data ?ev'') (restMessage e) \<or>
        (allowedOrigin e \<noteq> ''*'' \<and> origin ?ev'' \<noteq> allowedOrigin e))"
    by (simp add: model_defs)
  from invalid_event_ignored [OF a, of neverThrows] invalid_event_ignored [OF b, of neverThrows]
    invalid_event_ignored [OF c, of neverThrows]
  show ?thesis by simp
qed

subsection \<open>C6: pairs and senders\<close>

text \<open>
  C6, as amended. Two grants of the same channel always go to two different sources: a
  source is granted a channel at most once, so there is one pair per granted source and
  channel. When the channel is not \<^verbatim>\<open>sidebar-host\<close>, the two grants hand out different
  pairs with different ports, the later one created for that grant. When the channel is
  \<^verbatim>\<open>sidebar-host\<close>, both grants hand out the pair created at construction.

  The claim as stated, that two different sources granted the same channel always get
  different pairs, fails for \<^verbatim>\<open>sidebar-host\<close>: two windows that each send a
  \<^verbatim>\<open>sidebar-host\<close> request from the apps origin are both handed the pair of the
  constructor, whether or not the platform lets the first port be posted a second time,
  as the counterexample shows.
\<close>

theorem distinct_pairs_per_grant:
  assumes "granted (handleRequest t1 (run (PortProvider appsOrigin) pre) ev1) = Some (k, mc1)"
    and "granted (handleRequest t2 (run (PortProvider appsOrigin) (pre @ (t1, ev1) # mid)) ev2) =
           Some (k, mc2)"
  shows "source ev1 \<noteq> source ev2 \<and>
     (k \<noteq> ''sidebar-host'' \<longrightarrow>
        mc1 \<noteq> mc2 \<and> port1 mc1 \<noteq> port1 mc2 \<and> port2 mc1 \<noteq> port2 mc2 \<and>
        mc2 = newMessageChannel
                (channelsCreated (run (PortProvider appsOrigin) (pre @ (t1, ev1) # mid)))) \<and>
     (k = ''sidebar-host'' \<longrightarrow>
        mc1 = sidebarHostChannel (PortProvider appsOrigin) \<and>
        mc2 = sidebarHostChannel (PortProvider appsOrigin))"
proof -
  let ?init = "PortProvider appsOrigin"
  let ?r1 = "handleRequest t1 (run ?init pre) ev1"
  let ?evs = "pre @ (t1, ev1) # mid"
  have later: "run ?init ?evs = run (state ?r1) mid"
    by (rule run_middle)
  have "hasGranted (state ?r1) (source ev1) k"
    using assms(1) by (simp add: hasGranted_after)
  then have "hasGranted (run ?init ?evs) (source ev1) k"
    unfolding later by (rule run_hasGranted_mono)
  moreover from assms(2) have "\<not> hasGranted (run ?init ?evs) (source ev2) k"
    by (simp add: granted_iff)
  ultimately have a: "source ev1 \<noteq> source ev2" by auto
  have b: "mc1 \<noteq> mc2 \<and> port1 mc1 \<noteq> port1 mc2 \<and> port2 mc1 \<noteq> port2 mc2 \<and>
        mc2 = newMessageChannel (channelsCreated (run ?init ?evs))"
    if k: "k \<noteq> ''sidebar-host''"
  proof -
    from assms(2) k have mc2: "mc2 = newMessageChannel (channelsCreated (run ?init ?evs))"
      by (simp add: granted_iff)
    from dispatch_granted_bound [OF dispatch_mem_middle assms(1)] k
    obtain n where "n < channelsCreated (run ?init ?evs)" and "mc1 = newMessageChannel n"
      by auto
    with mc2 show ?thesis
      by (auto simp: newMessageChannel_def)
  qed
  have c: "mc1 = sidebarHostChannel ?init \<and> mc2 = sidebarHostChannel ?init"
    if k: "k = ''sidebar-host''"
    using assms k by (simp add: granted_iff run_sidebarHostChannel)
  from a b c show ?thesis by blast
qed

theorem shared_pair_counterexample:
  "source (requestEvent ''sidebar'' ''host'' ''https://hypothes.is'' 1) \<noteq>
     source (requestEvent ''sidebar'' ''host'' ''https://hypothes.is'' 2) \<and>
   granted (handleRequest neverThrows (run (PortProvider ''https://hypothes.is'') [])
      (requestEvent ''sidebar'' ''host'' ''https://hypothes.is'' 1)) =
     Some (''sidebar-host'', newMessageChannel 0) \<and>
   granted (handleRequest neverThrows
      (run (PortProvider ''https://hypothes.is'')
         [(neverThrows, requestEvent ''sidebar'' ''host'' ''https://hypothes.is'' 1)])
      (requestEvent ''sidebar'' ''host'' ''https://hypothes.is'' 2)) =
     Some (''sidebar-host'', newMessageChannel 0) \<and>
   granted (handleRequest windowThrows
      (run (PortProvider ''https://hypothes.is'')
         [(neverThrows, requestEvent ''sidebar'' ''host'' ''https://hypothes.is'' 1)])
      (requestEvent ''sidebar'' ''host'' ''https://hypothes.is'' 2)) =
     Some (''sidebar-host'', newMessageChannel 0) \<and>
   attempted (handleRequest windowThrows
      (run (PortProvider ''https://hypothes.is'')
         [(neverThrows, requestEvent ''sidebar'' ''host'' ''https://hypothes.is'' 1)])
      (requestEvent ''sidebar'' ''host'' ''https://hypothes.is'' 2)) =
     [WindowPostMessage (SourceWindow 2)
        \<lparr>frame1 = ''sidebar'', frame2 = ''host'', type = ''offer''\<rparr> ''https://hypothes.is''
        [Port1 0]]"
  by (simp add: eval_defs model_defs)

theorem distinct_pairs_per_grant_witness:
  "granted (handleRequest neverThrows (run (PortProvider ''https://hypothes.is'') [])
      (requestEvent ''guest'' ''sidebar'' ''https://a.example'' 1)) =
     Some (''guest-sidebar'', newMessageChannel 1) \<and>
   granted (handleRequest neverThrows
      (run (PortProvider ''https://hypothes.is'')
         ([] @ [(neverThrows, requestEvent ''guest'' ''sidebar'' ''https://a.example'' 1)]))
      (requestEvent ''guest'' ''sidebar'' ''https://b.example'' 2)) =
     Some (''guest-sidebar'', newMessageChannel 2) \<and>
   newMessageChannel 1 \<noteq> newMessageChannel 2 \<and>
   port1 (newMessageChannel 1) \<noteq> port1 (newMessageChannel 2) \<and>
   port2 (newMessageChannel 1) \<noteq> port2 (newMessageChannel 2)"
proof -
  let ?init = "PortProvider ''https://hypothes.is''"
  let ?ev1 = "requestEvent ''guest'' ''sidebar'' ''https://a.example'' 1"
  let ?ev2 = "requestEvent ''guest'' ''sidebar'' ''https://b.example'' 2"
  have a: "granted (handleRequest neverThrows (run ?init []) ?ev1) =
             Some (''guest-sidebar'', newMessageChannel 1)"
    by (simp add: eval_defs model_defs)
  have b: "granted (handleRequest neverThrows (run ?init ([] @ [(neverThrows, ?ev1)])) ?ev2) =
             Some (''guest-sidebar'', newMessageChannel 2)"
    by (simp add: eval_defs model_defs)
  have k: "''guest-sidebar'' \<noteq> ''sidebar-host''" by simp
  from distinct_pairs_per_grant [OF a b, THEN conjunct2, THEN conjunct1, rule_format, OF k]
  have c: "newMessageChannel 1 \<noteq> newMessageChannel 2 \<and>
           port1 (newMessageChannel 1) \<noteq> port1 (newMessageChannel 2) \<and>
           port2 (newMessageChannel 1) \<noteq> port2 (newMessageChannel 2)"
    by blast
  from a b c show ?thesis by (intro conjI) simp_all
qed

subsection \<open>C7: the registry holds its sources\<close>

text \<open>
  C7. The claim is that \<^verbatim>\<open>_sentChannels\<close> holds its sources weakly, so that the entry of
  a source that has gone away can disappear and the registry does not grow without
  bound. The source declares the field as a \<^verbatim>\<open>WeakMap\<close> (line 78) and creates it with
  \<^verbatim>\<open>new Map()\<close> (line 80). What the code does with that \<^verbatim>\<open>Map\<close>: no run of the
  handler removes a key; the source of every request that matched the table is a key
  from then on, whatever events follow; and after one matching request from each of n
  windows the registry has those n windows as keys.
\<close>

theorem sentChannels_holds_every_source:
  "set (mapKeys (sentChannels s)) \<subseteq> set (mapKeys (sentChannels (run s evs))) \<and>
   (isSourceWindow (source ev) \<and> matchOf s ev = Some m \<longrightarrow>
      source ev \<in> set (mapKeys (sentChannels (run (state (handleRequest t s ev)) evs)))) \<and>
   mapKeys (sentChannels (run (PortProvider appsOrigin)
      (map (\<lambda>w. (throws w, requestEvent ''guest'' ''host'' from w)) [0..<n]))) =
     map SourceWindow [0..<n]"
proof -
  have a: "set (mapKeys (sentChannels s)) \<subseteq> set (mapKeys (sentChannels (run s evs)))"
    by (rule run_keys_kept)
  have b: "source ev \<in> set (mapKeys (sentChannels (run (state (handleRequest t s ev)) evs)))"
    if "isSourceWindow (source ev) \<and> matchOf s ev = Some m"
    using that matched_source_is_key [of ev s m t]
      run_keys_kept [of "state (handleRequest t s ev)" evs]
    by blast
  let ?req = "\<lambda>w. (throws w, requestEvent ''guest'' ''host'' from w)"
  let ?init = "PortProvider appsOrigin"
  have c: "mapKeys (sentChannels (run ?init (map ?req [0..<n]))) = map SourceWindow [0..<n]"
  proof (induction n)
    case 0
    show ?case by (simp add: PortProvider_def mapKeys_def)
  next
    case (Suc n)
    let ?s = "run ?init (map ?req [0..<n])"
    let ?ev = "requestEvent ''guest'' ''host'' from n"
    have src: "source ?ev = SourceWindow n" by (simp add: requestEvent_def)
    have w: "isSourceWindow (source ?ev)" by (rule requestEvent_window)
    have m: "matchOf ?s ?ev = Some (allowedMessages appsOrigin ! 0)"
      by (simp add: matchOf_requestEvent run_appsOrigin PortProvider_def allowedMessages_def)
    have new: "source ?ev \<notin> set (mapKeys (sentChannels ?s))"
      by (auto simp: Suc.IH src)
    then have "mapGet (sentChannels ?s) (source ?ev) = None"
      by (simp add: mapGet_None_iff)
    then have n: "\<not> hasGranted ?s (source ?ev) (channelName (allowedMessages appsOrigin ! 0))"
      by (simp add: hasGranted_def)
    have "run ?init (map ?req [0..<Suc n]) = state (handleRequest (throws n) ?s ?ev)"
      by (simp add: run_append)
    then show ?case
      using new by (simp add: handleRequest_grant_keys [OF w m n] Suc.IH src)
  qed
  from a b c show ?thesis by blast
qed

theorem sentChannels_holds_every_source_witness:
  "mapKeys (sentChannels (run (PortProvider ''https://hypothes.is'')
      [(neverThrows, requestEvent ''guest'' ''host'' ''https://a.example'' 0),
       (neverThrows, requestEvent ''guest'' ''host'' ''https://a.example'' 1),
       (neverThrows, requestEvent ''guest'' ''host'' ''https://a.example'' 2)])) =
     [SourceWindow 0, SourceWindow 1, SourceWindow 2] \<and>
   SourceWindow 7 \<in> set (mapKeys (sentChannels
      (run (state (handleRequest neverThrows (PortProvider ''https://hypothes.is'')
              (requestEvent ''guest'' ''sidebar'' ''https://a.example'' 7)))
         [(neverThrows, requestEvent ''guest'' ''host'' ''https://b.example'' 8)])))"
proof -
  let ?init = "PortProvider ''https://hypothes.is''"
  let ?ev = "requestEvent ''guest'' ''sidebar'' ''https://a.example'' 7"
  have u: "[0..<3] = [0, 1, 2]"
    by (simp add: upt_rec)
  have h: "isSourceWindow (source ?ev) \<and>
           matchOf ?init ?ev = Some (allowedMessages ''https://hypothes.is'' ! 1)"
    by (simp add: requestEvent_window matchOf_requestEvent PortProvider_def allowedMessages_def)
  note inst = sentChannels_holds_every_source
    [of ?init "[(neverThrows, requestEvent ''guest'' ''host'' ''https://b.example'' 8)]" ?ev
       "allowedMessages ''https://hypothes.is'' ! 1" neverThrows
       "''https://hypothes.is''" "\<lambda>w. neverThrows" "''https://a.example''" 3]
  from inst [THEN conjunct2, THEN conjunct2]
  have a: "mapKeys (sentChannels (run ?init
      [(neverThrows, requestEvent ''guest'' ''host'' ''https://a.example'' 0),
       (neverThrows, requestEvent ''guest'' ''host'' ''https://a.example'' 1),
       (neverThrows, requestEvent ''guest'' ''host'' ''https://a.example'' 2)])) =
     [SourceWindow 0, SourceWindow 1, SourceWindow 2]"
    by (simp add: u)
  from inst [THEN conjunct2, THEN conjunct1, rule_format, OF h]
  have b: "SourceWindow 7 \<in> set (mapKeys (sentChannels
      (run (state (handleRequest neverThrows ?init ?ev))
         [(neverThrows, requestEvent ''guest'' ''host'' ''https://b.example'' 8)])))"
    by (simp only: requestEvent_def message_event.simps)
  from a b show ?thesis by (intro conjI)
qed

subsection \<open>C8: a call that throws\<close>

text \<open>
  C8. The handler runs inside \<^verbatim>\<open>captureErrors\<close>: when a call of the handler throws, the
  listener reports the failure to the error sink with the description
  \<^verbatim>\<open>Handling port request\<close> and lets nothing propagate, and later events are handled
  as usual: a request of another sender is granted. The channel was recorded for the
  sender before the call that threw and stays recorded, so every later request of that
  sender for the same channel, after any further events, is ignored.
\<close>

theorem failed_grant_not_rolled_back:
  assumes "thrown (handleRequest t s ev) = Some e" and "matchOf s ev = Some m"
  shows "reported (listener t s ev) = [(e, ''Handling port request'')] \<and>
     propagated (listener t s ev) = None \<and>
     t e \<and> e \<in> set (attempted (handleRequest t s ev)) \<and>
     \<not> hasGranted s (source ev) (channelName m) \<and>
     hasGranted (after (listener t s ev)) (source ev) (channelName m) \<and>
     (source ev' = source ev \<and> matchOf s ev' = Some m' \<and> channelName m' = channelName m
        \<longrightarrow> handleRequest t' (run (after (listener t s ev)) evs) ev' =
              \<lparr>state = run (after (listener t s ev)) evs, effects = [], thrown = None,
               granted = None\<rparr>) \<and>
     (isSourceWindow (source ev2) \<and> source ev2 \<noteq> source ev \<and> matchOf s ev2 = Some m2 \<and>
      \<not> hasGranted s (source ev2) (channelName m2)
        \<longrightarrow> map_option fst (granted (handleRequest t2 (after (listener t s ev)) ev2)) =
              Some (channelName m2))"
proof -
  let ?r = "handleRequest t s ev"
  let ?s = "after (listener t s ev)"
  have s: "?s = state ?r" by (rule listener_after)
  from thrown_granted [OF assms(1)]
  have g: "granted ?r \<noteq> None" and te: "t e" and at: "e \<in> set (attempted ?r)" by simp_all
  from g obtain k mc where gk: "granted ?r = Some (k, mc)" by auto
  with assms(2) have k: "k = channelName m"
    and n: "\<not> hasGranted s (source ev) (channelName m)"
    by (auto simp: granted_iff)
  have a: "reported (listener t s ev) = [(e, ''Handling port request'')]"
    and b: "propagated (listener t s ev) = None"
    using assms(1) by (simp_all add: listener_def captureErrors_def Let_def)
  have rec: "hasGranted ?s (source ev) (channelName m)"
    using gk k by (simp add: s hasGranted_after)
  have again: "handleRequest t' (run ?s evs) ev' =
      \<lparr>state = run ?s evs, effects = [], thrown = None, granted = None\<rparr>"
    if "source ev' = source ev \<and> matchOf s ev' = Some m' \<and> channelName m' = channelName m"
  proof (rule handleRequest_duplicate)
    show "matchOf (run ?s evs) ev' = Some m'"
      using that by (simp add: s matchOf_run matchOf_after)
    show "hasGranted (run ?s evs) (source ev') (channelName m')"
      using that run_hasGranted_mono [OF rec, of evs] by simp
  qed
  have others: "map_option fst (granted (handleRequest t2 ?s ev2)) = Some (channelName m2)"
    if h: "isSourceWindow (source ev2) \<and> source ev2 \<noteq> source ev \<and> matchOf s ev2 = Some m2 \<and>
        \<not> hasGranted s (source ev2) (channelName m2)"
  proof -
    from h have "matchOf ?s ev2 = Some m2"
      by (simp add: s matchOf_after)
    moreover from h have "\<not> hasGranted ?s (source ev2) (channelName m2)"
      by (simp add: s hasGranted_after)
    ultimately show ?thesis
      using h by (simp add: handleRequest_grant_granted)
  qed
  from a b te at n rec again others show ?thesis
    by (intro conjI impI)
qed

theorem failed_grant_not_rolled_back_witness:
  "reported (listener windowThrows (PortProvider ''https://hypothes.is'')
      (requestEvent ''guest'' ''host'' ''https://example.com'' 1)) =
     [(WindowPostMessage (SourceWindow 1)
         \<lparr>frame1 = ''guest'', frame2 = ''host'', type = ''offer''\<rparr> ''https://example.com''
         [Port1 1], ''Handling port request'')] \<and>
   hasGranted (after (listener windowThrows (PortProvider ''https://hypothes.is'')
      (requestEvent ''guest'' ''host'' ''https://example.com'' 1))) (SourceWindow 1)
      ''guest-host'' \<and>
   effects (handleRequest neverThrows
      (run (after (listener windowThrows (PortProvider ''https://hypothes.is'')
         (requestEvent ''guest'' ''host'' ''https://example.com'' 1))) [])
      (requestEvent ''guest'' ''host'' ''https://example.com'' 1)) = [] \<and>
   map_option fst (granted (handleRequest neverThrows
      (after (listener windowThrows (PortProvider ''https://hypothes.is'')
         (requestEvent ''guest'' ''host'' ''https://example.com'' 1)))
      (requestEvent ''guest'' ''host'' ''https://example.com'' 2))) = Some ''guest-host''"
proof -
  let ?s = "PortProvider ''https://hypothes.is''"
  let ?ev = "requestEvent ''guest'' ''host'' ''https://example.com'' 1"
  let ?ev2 = "requestEvent ''guest'' ''host'' ''https://example.com'' 2"
  let ?m = "allowedMessages ''https://hypothes.is'' ! 0"
  let ?e = "WindowPostMessage (SourceWindow 1)
         \<lparr>frame1 = ''guest'', frame2 = ''host'', type = ''offer''\<rparr> ''https://example.com''
         [Port1 1]"
  have m: "matchOf ?s ?ev = Some ?m" and m2: "matchOf ?s ?ev2 = Some ?m"
    by (simp_all add: matchOf_requestEvent PortProvider_def allowedMessages_def)
  have th: "thrown (handleRequest windowThrows ?s ?ev) = Some ?e"
    unfolding handleRequest_grant_attempted(2)
        [OF requestEvent_window m initial_not_granted refl refl refl refl]
    by (simp add: windowThrows_def allowedMessages_def channelName_def offerMessage_def
          newMessageChannel_def PortProvider_def requestEvent_def)
  have h1: "source ?ev = source ?ev \<and> matchOf ?s ?ev = Some ?m \<and> channelName ?m = channelName ?m"
    using m by simp
  have h2: "isSourceWindow (source ?ev2) \<and> source ?ev2 \<noteq> source ?ev \<and>
      matchOf ?s ?ev2 = Some ?m \<and> \<not> hasGranted ?s (source ?ev2) (channelName ?m)"
    using m2 by (simp add: requestEvent_window initial_not_granted) (simp add: requestEvent_def)
  from failed_grant_not_rolled_back [OF th m, of ?ev ?m neverThrows "[]" ?ev2 ?m neverThrows]
    h1 h2
  show ?thesis
    by (simp add: allowedMessages_def channelName_def requestEvent_def)
qed

subsection \<open>C9: only the channels of the table\<close>

text \<open>
  C9. In every state that the provider reaches from its construction, the channel names
  for which a request can be granted, and so a pair be handed out or created, are
  exactly \<^verbatim>\<open>guest-host\<close>, \<^verbatim>\<open>guest-sidebar\<close>, \<^verbatim>\<open>notebook-sidebar\<close> and
  \<^verbatim>\<open>sidebar-host\<close>; \<^verbatim>\<open>_sentChannels\<close> never records another name; and a run of the
  handler that grants nothing creates no channel.
\<close>

theorem only_table_channels:
  "{k. \<exists>t evs ev mc.
         granted (handleRequest t (run (PortProvider appsOrigin) evs) ev) = Some (k, mc)} =
     set Channel \<and>
   set Channel = {''guest-host'', ''guest-sidebar'', ''notebook-sidebar'', ''sidebar-host''} \<and>
   {c. \<exists>evs src. hasGranted (run (PortProvider appsOrigin) evs) src c} \<subseteq> set Channel \<and>
   (case granted (handleRequest t s ev) of
      None \<Rightarrow> channelsCreated (state (handleRequest t s ev)) = channelsCreated s
    | Some g \<Rightarrow> fst g \<in> set Channel)"
proof -
  let ?init = "PortProvider appsOrigin"
  have sub: "{k. \<exists>t evs ev mc. granted (handleRequest t (run ?init evs) ev) = Some (k, mc)}
               \<subseteq> set Channel"
    by (auto dest: granted_channel)
  have sup: "k \<in> {k. \<exists>t evs ev mc. granted (handleRequest t (run ?init evs) ev) = Some (k, mc)}"
    if "k \<in> set Channel" for k
  proof -
    from that consider "k = ''guest-host''" | "k = ''guest-sidebar''"
      | "k = ''notebook-sidebar''" | "k = ''sidebar-host''"
      by (auto simp: Channel_def)
    then have "\<exists>ev mc. granted (handleRequest neverThrows (run ?init []) ev) = Some (k, mc)"
    proof cases
      case 1
      show ?thesis unfolding 1 run.simps by (intro exI) (rule initial_grants(1) [where w = 0])
    next
      case 2
      show ?thesis unfolding 2 run.simps by (intro exI) (rule initial_grants(2) [where w = 0])
    next
      case 3
      show ?thesis unfolding 3 run.simps by (intro exI) (rule initial_grants(4) [where w = 0])
    next
      case 4
      show ?thesis unfolding 4 run.simps by (intro exI) (rule initial_grants(3) [where w = 0])
    qed
    then obtain ev mc
      where "granted (handleRequest neverThrows (run ?init []) ev) = Some (k, mc)"
      by (elim exE)
    then show ?thesis by (intro CollectI exI)
  qed
  have a: "{k. \<exists>t evs ev mc. granted (handleRequest t (run ?init evs) ev) = Some (k, mc)} =
             set Channel"
    by (rule equalityI) (rule sub, rule subsetI, erule sup)
  have b: "set Channel = {''guest-host'', ''guest-sidebar'', ''notebook-sidebar'', ''sidebar-host''}"
    by (simp add: Channel_def)
  have "c \<in> set Channel" if "hasGranted (run ?init evs) src c" for evs src c
    using _ that by (rule run_hasGranted_channel) (simp add: initial_not_granted)
  then have c: "{c. \<exists>evs src. hasGranted (run ?init evs) src c} \<subseteq> set Channel"
    by blast
  have d: "(case granted (handleRequest t s ev) of
      None \<Rightarrow> channelsCreated (state (handleRequest t s ev)) = channelsCreated s
    | Some g \<Rightarrow> fst g \<in> set Channel)"
    by (auto simp: handleRequest_channelsCreated dest: granted_channel split: option.splits)
  show ?thesis by (intro conjI a b c d)
qed

theorem only_table_channels_witness:
  "''notebook-sidebar'' \<in> {k. \<exists>t evs ev mc.
      granted (handleRequest t (run (PortProvider ''https://hypothes.is'') evs) ev) =
        Some (k, mc)} \<and>
   ''host-guest'' \<notin> {k. \<exists>t evs ev mc.
      granted (handleRequest t (run (PortProvider ''https://hypothes.is'') evs) ev) =
        Some (k, mc)} \<and>
   fst (the (granted (handleRequest neverThrows (PortProvider ''https://hypothes.is'')
      (requestEvent ''notebook'' ''sidebar'' ''https://hypothes.is'' 5)))) \<in> set Channel"
proof -
  have g: "granted (handleRequest neverThrows (PortProvider ''https://hypothes.is'')
      (requestEvent ''notebook'' ''sidebar'' ''https://hypothes.is'' 5)) =
      Some (''notebook-sidebar'', newMessageChannel 1)"
    by (rule initial_grants)
  from only_table_channels [of "''https://hypothes.is''" neverThrows
      "PortProvider ''https://hypothes.is''"
      "requestEvent ''notebook'' ''sidebar'' ''https://hypothes.is'' 5"] g
  show ?thesis
    by (simp add: Channel_def)
qed

subsection \<open>C10: the port given to the host is the relay port\<close>

text \<open>
  C10. When a \<^verbatim>\<open>sidebar-host\<close> request is granted, the port emitted with
  \<^verbatim>\<open>frameConnected\<close> is the second port of the channel created at construction. That
  same port is the one on which the handler posts the second port of every granted
  \<^verbatim>\<open>guest-sidebar\<close> and \<^verbatim>\<open>notebook-sidebar\<close> channel, before or after the
  \<^verbatim>\<open>sidebar-host\<close> grant: the consumer of the notification and the provider's relay
  share it.
\<close>

theorem frameConnected_port_is_relay_port:
  assumes "granted (handleRequest t (run s evs) ev) = Some (''sidebar-host'', mc)"
    and "granted (handleRequest t' (run s evs') ev') = Some (k', mc')"
    and "k' = ''guest-sidebar'' \<or> k' = ''notebook-sidebar''"
    and "\<not> t (WindowPostMessage (source ev)
                \<lparr>frame1 = ''sidebar'', frame2 = ''host'', type = ''offer''\<rparr> (origin ev)
                [port1 mc])"
    and "\<not> t' (WindowPostMessage (source ev')
                \<lparr>frame1 = (if k' = ''guest-sidebar'' then ''guest'' else ''notebook''),
                 frame2 = ''sidebar'', type = ''offer''\<rparr> (origin ev') [port1 mc'])"
  shows "mc = sidebarHostChannel s \<and>
     attempted (handleRequest t (run s evs) ev) =
       [WindowPostMessage (source ev)
          \<lparr>frame1 = ''sidebar'', frame2 = ''host'', type = ''offer''\<rparr> (origin ev) [port1 mc],
        Emit ''frameConnected'' ''sidebar'' (port2 (sidebarHostChannel s))] \<and>
     attempted (handleRequest t' (run s evs') ev') =
       [WindowPostMessage (source ev')
          \<lparr>frame1 = (if k' = ''guest-sidebar'' then ''guest'' else ''notebook''),
           frame2 = ''sidebar'', type = ''offer''\<rparr> (origin ev') [port1 mc'],
        PortPostMessage (port2 (sidebarHostChannel s))
          \<lparr>frame1 = (if k' = ''guest-sidebar'' then ''guest'' else ''notebook''),
           frame2 = ''sidebar'', type = ''offer''\<rparr> [port2 mc']]"
proof -
  let ?r = "handleRequest t (run s evs) ev"
  let ?r' = "handleRequest t' (run s evs') ev'"
  from assms(1) obtain m where m: "matchOf (run s evs) ev = Some m"
    and km: "channelName m = ''sidebar-host''"
    and w: "isSourceWindow (source ev)"
    and n: "\<not> hasGranted (run s evs) (source ev) (channelName m)"
    and mc: "mc = sidebarHostChannel (run s evs)"
    by (auto simp: granted_iff)
  from m have "m \<in> set (allowedMessages (hypothesisAppsOrigin (run s evs)))"
    by (rule matchOf_in_table)
  from channelName_sidebar_host [OF this km]
  have fm: "frame1 m = ''sidebar'' \<and> frame2 m = ''host''" .
  from assms(2) obtain m' where m': "matchOf (run s evs') ev' = Some m'"
    and km': "channelName m' = k'"
    and w': "isSourceWindow (source ev')"
    and n': "\<not> hasGranted (run s evs') (source ev') (channelName m')"
    and mc': "mc' = (if channelName m' = ''sidebar-host'' then sidebarHostChannel (run s evs')
                     else newMessageChannel (channelsCreated (run s evs')))"
    by (auto simp: granted_iff)
  from m' have "m' \<in> set (allowedMessages (hypothesisAppsOrigin (run s evs')))"
    by (rule matchOf_in_table)
  from channelName_to_sidebar [OF this] km' assms(3)
  have fm': "frame1 m' = (if k' = ''guest-sidebar'' then ''guest'' else ''notebook'') \<and>
             frame2 m' = ''sidebar''"
    by simp
  have a: "mc = sidebarHostChannel s"
    using mc by (simp add: run_sidebarHostChannel)
  have om: "offerMessage m = \<lparr>frame1 = ''sidebar'', frame2 = ''host'', type = ''offer''\<rparr>"
    using fm by (simp add: offerMessage_def)
  have om': "offerMessage m' =
      \<lparr>frame1 = (if k' = ''guest-sidebar'' then ''guest'' else ''notebook''),
       frame2 = ''sidebar'', type = ''offer''\<rparr>"
    using fm' by (simp add: offerMessage_def)
  have b: "attempted ?r =
       [WindowPostMessage (source ev)
          \<lparr>frame1 = ''sidebar'', frame2 = ''host'', type = ''offer''\<rparr> (origin ev) [port1 mc],
        Emit ''frameConnected'' ''sidebar'' (port2 (sidebarHostChannel s))]"
    using handleRequest_grant_attempted(1) [OF w m n refl refl refl refl, of t] assms(4) fm km
    by (simp add: om a run_sidebarHostChannel)
  have c: "attempted ?r' =
       [WindowPostMessage (source ev')
          \<lparr>frame1 = (if k' = ''guest-sidebar'' then ''guest'' else ''notebook''),
           frame2 = ''sidebar'', type = ''offer''\<rparr> (origin ev') [port1 mc'],
        PortPostMessage (port2 (sidebarHostChannel s))
          \<lparr>frame1 = (if k' = ''guest-sidebar'' then ''guest'' else ''notebook''),
           frame2 = ''sidebar'', type = ''offer''\<rparr> [port2 mc']]"
    using handleRequest_grant_attempted(1) [OF w' m' n' mc' refl refl refl, of t'] assms(5) fm'
    by (simp add: om' run_sidebarHostChannel)
  from a b c show ?thesis by simp
qed

theorem frameConnected_port_is_relay_port_witness:
  "attempted (handleRequest neverThrows (run (PortProvider ''https://hypothes.is'') [])
      (requestEvent ''sidebar'' ''host'' ''https://hypothes.is'' 1)) =
     [WindowPostMessage (SourceWindow 1)
        \<lparr>frame1 = ''sidebar'', frame2 = ''host'', type = ''offer''\<rparr> ''https://hypothes.is''
        [Port1 0],
      Emit ''frameConnected'' ''sidebar'' (Port2 0)] \<and>
   attempted (handleRequest neverThrows
      (run (PortProvider ''https://hypothes.is'')
         [(neverThrows, requestEvent ''sidebar'' ''host'' ''https://hypothes.is'' 1)])
      (requestEvent ''guest'' ''sidebar'' ''https://example.com'' 2)) =
     [WindowPostMessage (SourceWindow 2)
        \<lparr>frame1 = ''guest'', frame2 = ''sidebar'', type = ''offer''\<rparr> ''https://example.com''
        [Port1 1],
      PortPostMessage (Port2 0)
        \<lparr>frame1 = ''guest'', frame2 = ''sidebar'', type = ''offer''\<rparr> [Port2 1]]"
proof -
  let ?s = "PortProvider ''https://hypothes.is''"
  let ?ev = "requestEvent ''sidebar'' ''host'' ''https://hypothes.is'' 1"
  let ?ev' = "requestEvent ''guest'' ''sidebar'' ''https://example.com'' 2"
  have a: "granted (handleRequest neverThrows (run ?s []) ?ev) =
             Some (''sidebar-host'', newMessageChannel 0)"
    by (simp add: eval_defs model_defs)
  have b: "granted (handleRequest neverThrows (run ?s [(neverThrows, ?ev)]) ?ev') =
             Some (''guest-sidebar'', newMessageChannel 1)"
    by (simp add: eval_defs model_defs)
  have c: "''guest-sidebar'' = ''guest-sidebar'' \<or> ''guest-sidebar'' = ''notebook-sidebar''"
    by simp
  have d: "\<not> neverThrows e" for e
    by (simp add: neverThrows_def)
  from frameConnected_port_is_relay_port [OF a b c d d]
  show ?thesis
    by (simp add: PortProvider_def newMessageChannel_def requestEvent_def)
qed

end
